theory Spec2Isabelle
  imports Complex_Main
begin

section \<open>Game history store (GameRepository)\<close>

text \<open>
  The repository keeps an in-memory array \<open>gameHistory\<close>, created empty by the
  constructor. \<open>saveGameResult\<close> builds a fresh entry from the game result (game id,
  crash point, the time of the call, and of every player only \<open>playerId\<close>,
  \<open>betAmount\<close> and \<open>status\<close>), puts it at the front with \<open>unshift\<close> and drops the last
  element with \<open>pop\<close> when the array has grown beyond 100.

  A game result is a record scheme, so that fields the repository does not copy may be
  present on the input. The clock read by \<open>new Date()\<close> is the argument \<open>now\<close>.
\<close>

record player =
  playerId :: string
  betAmount :: rat
  status :: string

record 'p gameResult =
  gameId :: string
  crashPoint :: rat
  players :: "'p list"

record 'p historyEntry = "'p gameResult" +
  timestamp :: nat

record gameRepository =
  gameHistory :: "player historyEntry list"

definition GameRepository_new :: gameRepository where
  "GameRepository_new = \<lparr>gameHistory = []\<rparr>"

definition storedPlayer :: "'a player_scheme \<Rightarrow> player" where
  "storedPlayer p = \<lparr>playerId = playerId p, betAmount = betAmount p, status = status p\<rparr>"

definition storedEntry ::
  "nat \<Rightarrow> ('a player_scheme, 'b) gameResult_scheme \<Rightarrow> player historyEntry" where
  "storedEntry now gameResult =
     \<lparr>gameId = gameId gameResult,
      crashPoint = crashPoint gameResult,
      players = map storedPlayer (players gameResult),
      timestamp = now\<rparr>"

text \<open>\<open>Array.prototype.pop\<close>: removes the last element; nothing happens on an empty array.\<close>

definition js_pop :: "'a list \<Rightarrow> 'a list" where
  "js_pop xs = butlast xs"

definition saveGameResult ::
  "nat \<Rightarrow> ('a player_scheme, 'b) gameResult_scheme \<Rightarrow> gameRepository
     \<Rightarrow> gameRepository \<times> ('a player_scheme, 'b) gameResult_scheme" where
  "saveGameResult now gameResult repo =
     (let unshifted = storedEntry now gameResult # gameHistory repo;
          limited = (if length unshifted > 100 then js_pop unshifted else unshifted)
      in (repo\<lparr>gameHistory := limited\<rparr>, gameResult))"

text \<open>
  \<open>Array.prototype.slice(0, end)\<close> for an integer \<open>end\<close>: a negative \<open>end\<close> counts from
  the end of the array (and is clamped at 0), an \<open>end\<close> beyond the length is clamped to
  the length.
\<close>

definition js_slice0 :: "'a list \<Rightarrow> int \<Rightarrow> 'a list" where
  "js_slice0 xs end =
     (let len = int (length xs);
          final = (if end < 0 then max (len + end) 0 else min end len)
      in take (nat final) xs)"

text \<open>The parameter \<open>limit\<close> defaults to 10 when the caller leaves it out (\<open>None\<close>).\<close>

definition getGameHistory :: "int option \<Rightarrow> gameRepository \<Rightarrow> player historyEntry list" where
  "getGameHistory limit repo =
     js_slice0 (gameHistory repo) (case limit of None \<Rightarrow> 10 | Some l \<Rightarrow> l)"

text \<open>
  \<open>this.gameHistory[0] || null\<close>: every element is an object, hence truthy, so the
  result is \<open>null\<close> (here \<open>None\<close>) exactly when the array is empty.
\<close>

definition getLastGameResult :: "gameRepository \<Rightarrow> player historyEntry option" where
  "getLastGameResult repo =
     (case gameHistory repo of [] \<Rightarrow> None | e # _ \<Rightarrow> Some e)"

text \<open>
  A run of the store: the saves of a list of game results, each with the time of its
  call, the head of the list first.
\<close>

fun saveAll ::
  "(nat \<times> ('a player_scheme, 'b) gameResult_scheme) list \<Rightarrow> gameRepository \<Rightarrow> gameRepository" where
  "saveAll [] repo = repo"
| "saveAll ((now, gameResult) # rest) repo =
     saveAll rest (fst (saveGameResult now gameResult repo))"

definition entriesOf ::
  "(nat \<times> ('a player_scheme, 'b) gameResult_scheme) list \<Rightarrow> player historyEntry list" where
  "entriesOf saves = map (\<lambda>(now, gameResult). storedEntry now gameResult) saves"

section \<open>JavaScript values, errors and the outside world (walletService.js)\<close>

text \<open>
  A user id reaches the service as an arbitrary JavaScript value. The values that matter
  are the primitive ones: the service tests the id for truthiness and converts it to a
  string in template literals. Numbers are the integers, and \<open>NaN\<close>; the conversion to
  a string writes all digits, as JavaScript does for magnitudes below \<open>10^21\<close> (from
  there on it uses the exponent form, which is not modelled).
\<close>

datatype jsval = JUndefined | JNull | JBool bool | JNum int | JNaN | JStr string

fun truthy :: "jsval \<Rightarrow> bool" where
  "truthy JUndefined = False"
| "truthy JNull = False"
| "truthy (JBool b) = b"
| "truthy (JNum n) = (n \<noteq> 0)"
| "truthy JNaN = False"
| "truthy (JStr s) = (s \<noteq> [])"

fun show_nat :: "nat \<Rightarrow> string" where
  "show_nat n =
     (if n < 10 then [''0123456789'' ! n]
      else show_nat (n div 10) @ [''0123456789'' ! (n mod 10)])"

declare show_nat.simps [simp del]

fun js_toString :: "jsval \<Rightarrow> string" where
  "js_toString JUndefined = ''undefined''"
| "js_toString JNull = ''null''"
| "js_toString (JBool b) = (if b then ''true'' else ''false'')"
| "js_toString (JNum n) = (if n < 0 then ''-'' @ show_nat (nat (- n)) else show_nat (nat n))"
| "js_toString JNaN = ''NaN''"
| "js_toString (JStr s) = s"

text \<open>Every error the service throws or passes on is an \<open>Error\<close> with a message.\<close>

datatype error = Error string

fun message :: "error \<Rightarrow> string" where
  "message (Error m) = m"

text \<open>
  The calls that leave the process, each named by its place in an operation. In one
  execution the environment decides for each of them whether it throws (and with which
  message); a call that throws has no effect on the store it addresses.
\<close>

datatype extcall =
    Acquire_getClient      \<comment> \<open>\<open>RedisRepository.getClient()\<close> in \<open>acquireWalletLock\<close>\<close>
  | Acquire_set            \<comment> \<open>\<open>redisClient.set(lockKey, lockValue, {NX, PX})\<close>\<close>
  | Release_getClient      \<comment> \<open>\<open>RedisRepository.getClient()\<close> in \<open>releaseWalletLock\<close>\<close>
  | Release_eval           \<comment> \<open>\<open>redisClient.eval(unlockScript, ...)\<close>\<close>
  | Ledger_call            \<comment> \<open>the call of \<open>WalletRepository\<close> in the operation\<close>
  | Cache_getClient        \<comment> \<open>\<open>RedisRepository.getClient()\<close> before the cache write\<close>
  | Cache_set              \<comment> \<open>\<open>redisClient.set(redisCacheKey, balance)\<close>\<close>
  | Socket_get             \<comment> \<open>\<open>WalletRepository.getWalletSocket()\<close>\<close>
  | Socket_emit            \<comment> \<open>\<open>walletSocket.emitWalletUpdate(...)\<close>\<close>

record env =
  throws :: "extcall \<Rightarrow> string option"
  uuid :: string                \<comment> \<open>what \<open>uuidv4()\<close> returns in \<open>acquireWalletLock\<close>\<close>
  walletSocket :: bool          \<comment> \<open>whether \<open>getWalletSocket()\<close> returns a socket\<close>
  newWalletId :: string         \<comment> \<open>the id the ledger gives a wallet it creates\<close>
  newTransactionId :: string    \<comment> \<open>the id the ledger gives the row it inserts\<close>
  clock :: nat                  \<comment> \<open>the time of the execution\<close>

text \<open>
  The observable steps of an execution, in the order they happen. A logger call is
  recorded with the event name and the string diagnostics it carries (lock reason, error
  message).
\<close>

datatype event =
    Logged string "string list"
  | RedisSetNX string string          \<comment> \<open>conditional set of a lock key to a token\<close>
  | ReleaseCalled string string       \<comment> \<open>entry of \<open>releaseWalletLock\<close>\<close>
  | RedisEval string string           \<comment> \<open>the unlock script sent with key and token\<close>
  | LedgerCalled jsval string rat     \<comment> \<open>user, kind and amount passed to the repository\<close>
  | VerifyCalled jsval                \<comment> \<open>\<open>verifyAndSyncBalance\<close> called for a user\<close>
  | HistoryRead jsval                 \<comment> \<open>reconciliation reads wallet and rows of a user\<close>
  | BalanceCorrected string rat       \<comment> \<open>stored balance of a wallet set to the sum\<close>
  | CacheSet string rat               \<comment> \<open>balance written under a cache key\<close>
  | SocketEmitted jsval string rat    \<comment> \<open>wallet update pushed: user, kind, amount\<close>

section \<open>Ledger store\<close>

text \<open>
  Modelled from the spec: the repository module (\<open>walletRepository.js\<close>) and the
  tables behind it are missing. The rows are those of the spec (3): a wallet has an id,
  the user it belongs to, a balance and a currency (the four columns \<open>initializeWallet\<close>
  of the service inserts); a transaction has an id, the id of its wallet, a type, a signed
  amount, the balance after it, the time of creation and metadata.
\<close>

record wallet =
  walletId :: string
  userId :: jsval
  balance :: rat
  currency :: string

record transaction =
  transactionId :: string
  tx_walletId :: string
  tx_type :: string
  amount :: rat
  balanceAfter :: rat
  createdAt :: nat
  metadata :: "string list"

text \<open>Wallet rows, and transaction rows with the newest first.\<close>

record ledgerStore =
  wallets :: "wallet list"
  transactions :: "transaction list"

text \<open>
  The state the service works on: the lock keys and the balance keys of the shared
  key-value service (two parts of one keyspace, told apart by the key prefixes
  \<open>wallet_lock:\<close> and \<open>wallet_balance:\<close>), the ledger, and the events so far. The
  expiry of a lock key is not part of the state: a lock that has expired is a key that
  is absent.
\<close>

record world =
  locks :: "string \<rightharpoonup> string"
  cache :: "string \<rightharpoonup> rat"
  ledger :: ledgerStore
  trace :: "event list"

type_synonym 'a io = "world \<Rightarrow> (error + 'a) \<times> world"

definition ret :: "'a \<Rightarrow> 'a io" where
  "ret x s = (Inr x, s)"

definition throw :: "error \<Rightarrow> 'a io" where
  "throw e s = (Inl e, s)"

definition bind :: "'a io \<Rightarrow> ('a \<Rightarrow> 'b io) \<Rightarrow> 'b io" where
  "bind m f s = (case m s of (Inl e, s') \<Rightarrow> (Inl e, s') | (Inr x, s') \<Rightarrow> f x s')"

definition emit :: "event \<Rightarrow> unit io" where
  "emit e s = (Inr (), s\<lparr>trace := trace s @ [e]\<rparr>)"

text \<open>An external call that may throw in this execution.\<close>

definition ext :: "env \<Rightarrow> extcall \<Rightarrow> unit io" where
  "ext E c s = (case throws E c of Some m \<Rightarrow> (Inl (Error m), s) | None \<Rightarrow> (Inr (), s))"

text \<open>\<open>try { m } catch (error) { logger.error(name, {..., errorMessage}); throw error }\<close>\<close>

definition catch_log_rethrow :: "string \<Rightarrow> string list \<Rightarrow> 'a io \<Rightarrow> 'a io" where
  "catch_log_rethrow name details m s =
     (case m s of
        (Inl e, s') \<Rightarrow> (Inl e, s'\<lparr>trace := trace s' @ [Logged name (details @ [message e])]\<rparr>)
      | (Inr x, s') \<Rightarrow> (Inr x, s'))"

section \<open>Distributed lock\<close>

record walletLock =
  lockKey :: string
  lockValue :: string

text \<open>
  \<open>SET key value NX PX\<close>: sets the key only when it is absent and says whether it did.
\<close>

definition redis_set_nx :: "env \<Rightarrow> string \<Rightarrow> string \<Rightarrow> bool io" where
  "redis_set_nx E key val =
     bind (emit (RedisSetNX key val)) (\<lambda>_.
     bind (ext E Acquire_set) (\<lambda>_ s.
       (case locks s key of
          None \<Rightarrow> (Inr True, s\<lparr>locks := (locks s)(key \<mapsto> val)\<rparr>)
        | Some _ \<Rightarrow> (Inr False, s))))"

definition acquireWalletLock :: "env \<Rightarrow> jsval \<Rightarrow> string \<Rightarrow> walletLock io" where
  "acquireWalletLock E uid lockReason =
     (let key = ''wallet_lock:'' @ js_toString uid;
          val = uuid E
      in bind (ext E Acquire_getClient) (\<lambda>_.
         catch_log_rethrow ''WALLET_LOCK_ACQUISITION_FAILED'' [lockReason]
           (bind (redis_set_nx E key val) (\<lambda>lockAcquired.
              if \<not> lockAcquired then
                bind (emit (Logged ''WALLET_LOCK_CONTENTION'' [lockReason])) (\<lambda>_.
                throw (Error ''Wallet transaction in progress''))
              else ret \<lparr>lockKey = key, lockValue = val\<rparr>))))"

text \<open>
  The unlock script, run by the key-value service as one step: delete the key when it
  holds the token, and say how many keys were deleted. An absent key compares unequal to
  every token.
\<close>

definition unlockScript :: "(string \<rightharpoonup> string) \<Rightarrow> string \<Rightarrow> string \<Rightarrow> (string \<rightharpoonup> string) \<times> nat" where
  "unlockScript store key arg =
     (if store key = Some arg then (store(key := None), 1) else (store, 0))"

definition redis_eval_unlock :: "env \<Rightarrow> string \<Rightarrow> string \<Rightarrow> nat io" where
  "redis_eval_unlock E key arg =
     bind (emit (RedisEval key arg)) (\<lambda>_.
     bind (ext E Release_eval) (\<lambda>_ s.
       (let (store, n) = unlockScript (locks s) key arg
        in (Inr n, s\<lparr>locks := store\<rparr>))))"

definition releaseWalletLock :: "env \<Rightarrow> string \<Rightarrow> string \<Rightarrow> unit io" where
  "releaseWalletLock E key val =
     bind (emit (ReleaseCalled key val)) (\<lambda>_.
     bind (ext E Release_getClient) (\<lambda>_.
     catch_log_rethrow ''WALLET_LOCK_RELEASE_FAILED'' []
       (bind (redis_eval_unlock E key val) (\<lambda>_.
        emit (Logged ''WALLET_LOCK_RELEASED'' [])))))"

section \<open>Ledger store operations\<close>

record txResult =
  newBalance :: rat
  r_walletId :: string
  r_transactionId :: string

definition findWallet :: "ledgerStore \<Rightarrow> jsval \<Rightarrow> wallet option" where
  "findWallet led uid = find (\<lambda>w. userId w = uid) (wallets led)"

definition walletTransactions :: "ledgerStore \<Rightarrow> string \<Rightarrow> transaction list" where
  "walletTransactions led wid = filter (\<lambda>t. tx_walletId t = wid) (transactions led)"

definition setBalance :: "string \<Rightarrow> rat \<Rightarrow> wallet list \<Rightarrow> wallet list" where
  "setBalance wid b ws = map (\<lambda>w. if walletId w = wid then w\<lparr>balance := b\<rparr> else w) ws"

text \<open>
  Modelled from the spec: the repository module (\<open>walletRepository.js\<close>) is missing, and
  with it \<open>recordTransaction\<close>. The spec (4.2): one atomic unit that locates, or
  lazily creates, the wallet, computes \<open>newBalance = currentBalance + amount\<close>, inserts
  the transaction row with \<open>balanceAfter = newBalance\<close> and updates the stored balance
  to match; on a storage failure the caller sees no partial effect. A wallet is created
  with balance 0 and currency KSH under a generated id, as \<open>initializeWallet\<close> in the
  service does; wallet ids are unique (3), so an id already in use is a storage failure.
\<close>

definition locateOrCreate :: "env \<Rightarrow> ledgerStore \<Rightarrow> jsval \<Rightarrow> error + (wallet \<times> wallet list)" where
  "locateOrCreate E led uid =
     (case findWallet led uid of
        Some w \<Rightarrow> Inr (w, wallets led)
      | None \<Rightarrow>
          if newWalletId E \<in> set (map walletId (wallets led))
          then Inl (Error ''PersistenceError'')
          else (let w = \<lparr>walletId = newWalletId E, userId = uid, balance = 0, currency = ''KSH''\<rparr>
                in Inr (w, wallets led @ [w])))"

text \<open>
  Modelled from the spec: the effect of the missing \<open>recordTransaction\<close> on the ledger
  (4.2), as described above: the result handed back and the ledger after the write, or
  the storage failure.
\<close>

definition ledger_record ::
  "env \<Rightarrow> ledgerStore \<Rightarrow> jsval \<Rightarrow> string \<Rightarrow> rat \<Rightarrow> string list \<Rightarrow> error + (txResult \<times> ledgerStore)" where
  "ledger_record E led uid type amt meta =
     (case locateOrCreate E led uid of
        Inl e \<Rightarrow> Inl e
      | Inr (w, ws) \<Rightarrow>
          (let nb = balance w + amt;
               row = \<lparr>transactionId = newTransactionId E, tx_walletId = walletId w,
                      tx_type = type, amount = amt, balanceAfter = nb,
                      createdAt = clock E, metadata = meta\<rparr>
           in Inr (\<lparr>newBalance = nb, r_walletId = walletId w,
                     r_transactionId = newTransactionId E\<rparr>,
                   \<lparr>wallets = setBalance (walletId w) nb ws,
                    transactions = row # transactions led\<rparr>)))"

text \<open>
  Modelled from the spec: the missing \<open>recordTransaction\<close> as a step of an execution.
  The call is one of the external calls that may throw; otherwise it is the atomic
  write above.
\<close>

definition recordTransaction ::
  "env \<Rightarrow> jsval \<Rightarrow> string \<Rightarrow> rat \<Rightarrow> string list \<Rightarrow> txResult io" where
  "recordTransaction E uid type amt meta =
     bind (emit (LedgerCalled uid type amt)) (\<lambda>_.
     bind (ext E Ledger_call) (\<lambda>_ s.
       (case ledger_record E (ledger s) uid type amt meta of
          Inl e \<Rightarrow> (Inl e, s)
        | Inr (res, led) \<Rightarrow> (Inr res, s\<lparr>ledger := led\<rparr>))))"

text \<open>
  Modelled from the spec: \<open>WalletRepository.deposit\<close> is missing. The spec has one
  ledger write, \<open>recordTransaction\<close> (4.4, step 3); the repository's \<open>deposit\<close> is
  taken to be that write with the type \<open>deposit\<close>, the amount as passed, and the
  description, payment method and currency as metadata. The wallet id argument is a
  hint the service always leaves empty (\<open>null\<close>).
\<close>

definition WalletRepository_deposit ::
  "env \<Rightarrow> jsval \<Rightarrow> string option \<Rightarrow> rat \<Rightarrow> string \<Rightarrow> string \<Rightarrow> string \<Rightarrow> txResult io" where
  "WalletRepository_deposit E uid wid amt description paymentMethod ccy =
     recordTransaction E uid ''deposit'' amt [description, paymentMethod, ccy]"

text \<open>
  Modelled from the spec: \<open>WalletRepository.createWallet\<close> is missing. The spec (4.2):
  it fails with \<open>WalletAlreadyExistsError\<close> when the user has a wallet, and returns the
  new wallet otherwise.
\<close>

definition WalletRepository_createWallet :: "env \<Rightarrow> jsval \<Rightarrow> wallet option io" where
  "WalletRepository_createWallet E uid =
     bind (emit (LedgerCalled uid ''createWallet'' 0)) (\<lambda>_.
     bind (ext E Ledger_call) (\<lambda>_ s.
       (case findWallet (ledger s) uid of
          Some _ \<Rightarrow> (Inl (Error ''WalletAlreadyExistsError''), s)
        | None \<Rightarrow>
            (case locateOrCreate E (ledger s) uid of
               Inl e \<Rightarrow> (Inl e, s)
             | Inr (w, ws) \<Rightarrow> (Inr (Some w), s\<lparr>ledger := (ledger s)\<lparr>wallets := ws\<rparr>\<rparr>)))))"

section \<open>Transaction orchestration (WalletService)\<close>

text \<open>
  Every mutating method has the shape
  \<^verbatim>\<open>let walletLock = null; try { ... } catch (error) { log; throw error }
finally { if (walletLock) await this.releaseWalletLock(...) }\<close>.
  The \<open>try\<close> block is a function that returns, with the state, the value of the local
  \<open>walletLock\<close> when the block is left and the way it is left. The \<open>catch\<close> logs and
  rethrows; the \<open>finally\<close> releases a lock that was taken, and an error it throws
  replaces the pending result.
\<close>

type_synonym 'a attempt = "world \<Rightarrow> (walletLock option \<times> (error + 'a)) \<times> world"

definition locked_section :: "walletLock io \<Rightarrow> 'a io \<Rightarrow> 'a attempt" where
  "locked_section acquire rest s =
     (case acquire s of
        (Inl e, s1) \<Rightarrow> ((None, Inl e), s1)
      | (Inr l, s1) \<Rightarrow> (case rest s1 of (r, s2) \<Rightarrow> ((Some l, r), s2)))"

definition finally_release ::
  "env \<Rightarrow> walletLock option \<Rightarrow> (error + 'a) \<times> world \<Rightarrow> (error + 'a) \<times> world" where
  "finally_release E wl rs =
     (case wl of
        None \<Rightarrow> rs
      | Some l \<Rightarrow>
          (case releaseWalletLock E (lockKey l) (lockValue l) (snd rs) of
             (Inl e, s') \<Rightarrow> (Inl e, s')
           | (Inr _, s') \<Rightarrow> (fst rs, s')))"

definition try_catch_finally :: "env \<Rightarrow> string \<Rightarrow> 'a attempt \<Rightarrow> 'a io" where
  "try_catch_finally E name attempt s =
     (case attempt s of
        ((wl, r), s1) \<Rightarrow>
          finally_release E wl
            (case r of
               Inl e \<Rightarrow> (Inl e, s1\<lparr>trace := trace s1 @ [Logged name [message e]]\<rparr>)
             | Inr x \<Rightarrow> (Inr x, s1)))"

definition cache_set :: "env \<Rightarrow> string \<Rightarrow> rat \<Rightarrow> unit io" where
  "cache_set E key v =
     bind (emit (CacheSet key v)) (\<lambda>_.
     bind (ext E Cache_set) (\<lambda>_ s.
       (Inr (), s\<lparr>cache := (cache s)(key \<mapsto> v)\<rparr>)))"

text \<open>\<open>const redisClient = await RedisRepository.getClient(); await redisClient.set(...)\<close>\<close>

definition updateBalanceCache :: "env \<Rightarrow> jsval \<Rightarrow> rat \<Rightarrow> unit io" where
  "updateBalanceCache E uid b =
     bind (ext E Cache_getClient) (\<lambda>_.
     cache_set E (''wallet_balance:'' @ js_toString uid) b)"

text \<open>\<open>const walletSocket = WalletRepository.getWalletSocket(); if (walletSocket) { emit }\<close>\<close>

definition broadcastWalletUpdate :: "env \<Rightarrow> jsval \<Rightarrow> string \<Rightarrow> rat \<Rightarrow> unit io" where
  "broadcastWalletUpdate E uid kind amt =
     bind (ext E Socket_get) (\<lambda>_.
     if walletSocket E then
       bind (emit (SocketEmitted uid kind amt)) (\<lambda>_. ext E Socket_emit)
     else ret ())"

text \<open>
  \<open>deposit\<close>. The part of the \<open>try\<close> block after the lock has been taken comes
  first (\<open>deposit_locked\<close>), then the method. Arguments the source gives defaults
  (description, payment method, currency) are passed in full.
\<close>

definition deposit_locked :: "env \<Rightarrow> jsval \<Rightarrow> rat \<Rightarrow> string \<Rightarrow> string \<Rightarrow> string \<Rightarrow> txResult io" where
  "deposit_locked E uid amt description paymentMethod ccy =
     bind (WalletRepository_deposit E uid None amt description paymentMethod ccy) (\<lambda>result.
     bind (updateBalanceCache E uid (newBalance result)) (\<lambda>_.
     bind (emit (Logged ''WALLET_DEPOSIT_COMPLETED'' [])) (\<lambda>_.
     ret result)))"

definition deposit :: "env \<Rightarrow> jsval \<Rightarrow> rat \<Rightarrow> string \<Rightarrow> string \<Rightarrow> string \<Rightarrow> txResult io" where
  "deposit E uid amt description paymentMethod ccy =
     try_catch_finally E ''WALLET_DEPOSIT_FAILED''
       (\<lambda>s. if amt \<le> 0 then ((None, Inl (Error ''Deposit amount must be positive'')), s)
            else locked_section (acquireWalletLock E uid ''deposit_transaction'')
                   (deposit_locked E uid amt description paymentMethod ccy) s)"

text \<open>
  \<open>placeBet\<close>: the repository's \<open>deposit\<close> is called with the negated amount, and
  the update pushed to the socket carries the amount itself.
\<close>

definition placeBet_locked :: "env \<Rightarrow> jsval \<Rightarrow> rat \<Rightarrow> jsval \<Rightarrow> txResult io" where
  "placeBet_locked E uid betAmt gid =
     bind (WalletRepository_deposit E uid None (- betAmt)
             (''Bet Placement for Game '' @ js_toString gid) ''game_bet'' ''KSH'') (\<lambda>result.
     bind (updateBalanceCache E uid (newBalance result)) (\<lambda>_.
     bind (broadcastWalletUpdate E uid ''bet'' betAmt) (\<lambda>_.
     bind (emit (Logged ''WALLET_BET_PLACED'' [])) (\<lambda>_.
     ret result))))"

definition placeBet :: "env \<Rightarrow> jsval \<Rightarrow> rat \<Rightarrow> jsval \<Rightarrow> txResult io" where
  "placeBet E uid betAmt gid =
     try_catch_finally E ''WALLET_BET_PLACEMENT_FAILED''
       (\<lambda>s. if betAmt \<le> 0 then ((None, Inl (Error ''Bet amount must be positive'')), s)
            else locked_section (acquireWalletLock E uid ''bet_placement_transaction'')
                   (placeBet_locked E uid betAmt gid) s)"

text \<open>\<open>processWinnings\<close>.\<close>

definition processWinnings_locked :: "env \<Rightarrow> jsval \<Rightarrow> rat \<Rightarrow> jsval \<Rightarrow> txResult io" where
  "processWinnings_locked E uid winAmt gid =
     bind (WalletRepository_deposit E uid None winAmt
             (''Game Winnings for Game '' @ js_toString gid) ''game_win'' ''KSH'') (\<lambda>result.
     bind (updateBalanceCache E uid (newBalance result)) (\<lambda>_.
     bind (broadcastWalletUpdate E uid ''win'' winAmt) (\<lambda>_.
     bind (emit (Logged ''WALLET_WINNINGS_PROCESSED'' [])) (\<lambda>_.
     ret result))))"

definition processWinnings :: "env \<Rightarrow> jsval \<Rightarrow> rat \<Rightarrow> jsval \<Rightarrow> txResult io" where
  "processWinnings E uid winAmt gid =
     try_catch_finally E ''WALLET_WINNINGS_PROCESSING_FAILED''
       (\<lambda>s. if winAmt \<le> 0 then ((None, Inl (Error ''Win amount must be positive'')), s)
            else locked_section (acquireWalletLock E uid ''game_winnings_transaction'')
                   (processWinnings_locked E uid winAmt gid) s)"

text \<open>
  \<open>withdraw\<close>: the only method that calls \<open>recordTransaction\<close> itself, with the type
  \<open>withdraw\<close> and the amount as validated. The fourth argument of the source, the
  balance after, is \<open>null\<close> (to be calculated by the repository) and is left out.
\<close>

definition withdraw_locked :: "env \<Rightarrow> jsval \<Rightarrow> rat \<Rightarrow> string \<Rightarrow> txResult io" where
  "withdraw_locked E uid amt description =
     bind (recordTransaction E uid ''withdraw'' amt [description]) (\<lambda>result.
     bind (updateBalanceCache E uid (newBalance result)) (\<lambda>_.
     bind (emit (Logged ''WALLET_WITHDRAWAL_COMPLETED'' [])) (\<lambda>_.
     ret result)))"

definition withdraw :: "env \<Rightarrow> jsval \<Rightarrow> rat \<Rightarrow> string \<Rightarrow> txResult io" where
  "withdraw E uid amt description =
     try_catch_finally E ''WALLET_WITHDRAWAL_FAILED''
       (\<lambda>s. if amt \<le> 0 then ((None, Inl (Error ''Withdrawal amount must be positive'')), s)
            else locked_section (acquireWalletLock E uid ''withdrawal_transaction'')
                   (withdraw_locked E uid amt description) s)"

text \<open>\<open>cashout\<close>.\<close>

definition cashout_locked :: "env \<Rightarrow> jsval \<Rightarrow> rat \<Rightarrow> jsval \<Rightarrow> txResult io" where
  "cashout_locked E uid cashoutAmt gid =
     bind (WalletRepository_deposit E uid None cashoutAmt
             (''Game Cashout for Game '' @ js_toString gid) ''game_cashout'' ''KSH'') (\<lambda>result.
     bind (updateBalanceCache E uid (newBalance result)) (\<lambda>_.
     bind (broadcastWalletUpdate E uid ''cashout'' cashoutAmt) (\<lambda>_.
     bind (emit (Logged ''WALLET_CASHOUT_SUCCESS'' [])) (\<lambda>_.
     ret result))))"

definition cashout :: "env \<Rightarrow> jsval \<Rightarrow> rat \<Rightarrow> jsval \<Rightarrow> txResult io" where
  "cashout E uid cashoutAmt gid =
     try_catch_finally E ''WALLET_CASHOUT_FAILED''
       (\<lambda>s. if cashoutAmt \<le> 0 then ((None, Inl (Error ''Cashout amount must be positive'')), s)
            else locked_section (acquireWalletLock E uid ''cashout_transaction'')
                   (cashout_locked E uid cashoutAmt gid) s)"

text \<open>
  \<open>createWallet\<close>: no validation; a repository that hands back no wallet is an error,
  logged once where it is thrown and once more by the \<open>catch\<close>.
\<close>

definition createWallet_locked :: "env \<Rightarrow> jsval \<Rightarrow> wallet io" where
  "createWallet_locked E uid =
     bind (WalletRepository_createWallet E uid) (\<lambda>created.
       case created of
         None \<Rightarrow>
           bind (emit (Logged ''Wallet creation failed'' [''Unable to create wallet''])) (\<lambda>_.
           throw (Error ''Unable to create wallet''))
       | Some w \<Rightarrow>
           bind (updateBalanceCache E uid (balance w)) (\<lambda>_.
           ret w))"

definition createWallet :: "env \<Rightarrow> jsval \<Rightarrow> wallet io" where
  "createWallet E uid =
     try_catch_finally E ''Wallet creation failed''
       (locked_section (acquireWalletLock E uid ''wallet_creation'')
          (createWallet_locked E uid))"

text \<open>
  The five balance-changing methods are one text with different constants: the amount
  checked and its message, the lock reason, the ledger call (kind, amount and metadata
  passed), the wallet update pushed to the socket (none in \<open>deposit\<close> and
  \<open>withdraw\<close>), and the two log events. \<open>mutation\<close> is that text with the constants as
  parameters; the lemmas \<open>deposit_mutation\<close> to \<open>cashout_mutation\<close> below show that
  each method is an instance.
\<close>

definition notify :: "env \<Rightarrow> jsval \<Rightarrow> string option \<Rightarrow> rat \<Rightarrow> unit io" where
  "notify E uid kind amt =
     (case kind of None \<Rightarrow> ret () | Some k \<Rightarrow> broadcastWalletUpdate E uid k amt)"

definition mutation_locked ::
  "env \<Rightarrow> jsval \<Rightarrow> rat \<Rightarrow> string \<Rightarrow> rat \<Rightarrow> string list \<Rightarrow> string option \<Rightarrow> string
     \<Rightarrow> txResult io" where
  "mutation_locked E uid amt type passed meta kind done =
     bind (recordTransaction E uid type passed meta) (\<lambda>result.
     bind (updateBalanceCache E uid (newBalance result)) (\<lambda>_.
     bind (notify E uid kind amt) (\<lambda>_.
     bind (emit (Logged done [])) (\<lambda>_.
     ret result))))"

definition mutation ::
  "env \<Rightarrow> jsval \<Rightarrow> rat \<Rightarrow> string \<Rightarrow> string \<Rightarrow> string \<Rightarrow> rat \<Rightarrow> string list
     \<Rightarrow> string option \<Rightarrow> string \<Rightarrow> string \<Rightarrow> txResult io" where
  "mutation E uid amt invalid lockReason type passed meta kind done failed =
     try_catch_finally E failed
       (\<lambda>s. if amt \<le> 0 then ((None, Inl (Error invalid)), s)
            else locked_section (acquireWalletLock E uid lockReason)
                   (mutation_locked E uid amt type passed meta kind done) s)"

section \<open>Balance read and reconciliation\<close>

record balanceVerification =
  v_walletId :: string
  currentBalance :: rat
  calculatedBalance :: rat
  corrected :: bool
  difference :: rat
  reason :: "string option"

definition calculatedFromHistory :: "ledgerStore \<Rightarrow> string \<Rightarrow> rat" where
  "calculatedFromHistory led wid = sum_list (map amount (walletTransactions led wid))"

text \<open>
  Modelled from the spec: \<open>WalletRepository.verifyAndSyncBalance\<close> is missing. The spec
  (4.5): \<open>reconcile(userId)\<close> sums the amounts of all transaction rows of the wallet;
  when the sum differs from the stored balance it sets the stored balance to the sum and
  reports \<open>corrected = true\<close> with the difference and a reason; the call acquires the
  same per-user lock as ordinary mutations. The lock is taken and released with the
  lock manager of the service, a user without a wallet is \<open>WalletNotFoundError\<close>
  (4.2), and the difference is the sum minus the stored balance. The read of the
  ledger and the correction of the stored balance are steps of the execution
  (\<open>HistoryRead\<close>, \<open>BalanceCorrected\<close>).
\<close>

definition reconcile_locked :: "env \<Rightarrow> jsval \<Rightarrow> balanceVerification io" where
  "reconcile_locked E uid =
     bind (emit (HistoryRead uid)) (\<lambda>_.
     bind (ext E Ledger_call) (\<lambda>_ s.
       (case findWallet (ledger s) uid of
          None \<Rightarrow> (Inl (Error ''WalletNotFoundError''), s)
        | Some w \<Rightarrow>
            (let cur = balance w;
                 calc = calculatedFromHistory (ledger s) (walletId w)
             in if calc \<noteq> cur then
                  (Inr \<lparr>v_walletId = walletId w, currentBalance = cur, calculatedBalance = calc,
                        corrected = True, difference = calc - cur,
                        reason = Some ''stored balance differs from transaction history''\<rparr>,
                   s\<lparr>ledger := (ledger s)\<lparr>wallets :=
                        setBalance (walletId w) calc (wallets (ledger s))\<rparr>,
                     trace := trace s @ [BalanceCorrected (walletId w) calc]\<rparr>)
                else
                  (Inr \<lparr>v_walletId = walletId w, currentBalance = cur, calculatedBalance = calc,
                        corrected = False, difference = 0, reason = None\<rparr>, s)))))"

text \<open>
  Modelled from the spec: the missing \<open>verifyAndSyncBalance\<close> is the \<open>reconcile\<close> of
  the spec (4.5): the recomputation above between taking and releasing the lock of the
  user.
\<close>

definition verifyAndSyncBalance :: "env \<Rightarrow> jsval \<Rightarrow> balanceVerification io" where
  "verifyAndSyncBalance E uid =
     bind (emit (VerifyCalled uid)) (\<lambda>_ s.
       (case locked_section (acquireWalletLock E uid ''balance_reconciliation'')
               (reconcile_locked E uid) s of
          ((wl, r), s1) \<Rightarrow> finally_release E wl (r, s1)))"

text \<open>
  \<open>Number.prototype.toFixed(2)\<close> on a rational: the sign, then the nearest multiple of
  1/100 of the absolute value (the larger one on a tie), with two decimals. The source
  applies it to a double; the rounding of the double itself, and the exponent form from
  \<open>10^21\<close> on, are not modelled.
\<close>

definition js_toFixed2 :: "rat \<Rightarrow> string" where
  "js_toFixed2 x =
     (let n = nat \<lfloor>\<bar>x\<bar> * 100 + 1 / 2\<rfloor>;
          digits = show_nat (n div 100) @ ''.'' @
                   [''0123456789'' ! (n div 10 mod 10), ''0123456789'' ! (n mod 10)]
      in if x < 0 then ''-'' @ digits else digits)"

text \<open>\<open>reason || null\<close>: a reason that is absent or the empty string gives \<open>null\<close>.\<close>

definition js_or_null :: "string option \<Rightarrow> string option" where
  "js_or_null v = (case v of None \<Rightarrow> None | Some r \<Rightarrow> if r = [] then None else Some r)"

record balanceResponse =
  b_userId :: jsval
  b_balance :: rat
  b_currency :: string
  formattedBalance :: string
  balanceVerified :: bool
  balanceCorrectionReason :: "string option"

definition getUserProfileBalance :: "env \<Rightarrow> jsval \<Rightarrow> balanceResponse io" where
  "getUserProfileBalance E uid =
     catch_log_rethrow ''User profile balance retrieval failed'' []
       (if \<not> truthy uid then
          bind (emit (Logged ''INVALID_USER_ID'' [''User ID is undefined or null''])) (\<lambda>_.
          throw (Error ''Invalid User ID''))
        else
          bind (ext E Cache_getClient) (\<lambda>_.
          bind (emit (Logged ''BALANCE_RETRIEVAL_ATTEMPT'' [])) (\<lambda>_.
          bind (verifyAndSyncBalance E uid) (\<lambda>bv.
          bind (emit (Logged ''BALANCE_VERIFICATION_RESULT'' [])) (\<lambda>_.
          (let balanceResponse =
                 \<lparr>b_userId = uid, b_balance = calculatedBalance bv, b_currency = ''KSH'',
                  formattedBalance = ''KSH '' @ js_toFixed2 (calculatedBalance bv),
                  balanceVerified = corrected bv,
                  balanceCorrectionReason = js_or_null (reason bv)\<rparr>
           in bind (cache_set E (''wallet_balance:'' @ js_toString uid)
                      (b_balance balanceResponse)) (\<lambda>_.
              bind (emit (Logged ''BALANCE_RETRIEVAL_SUCCESS'' [])) (\<lambda>_.
              ret balanceResponse))))))))"

section \<open>Runs of the service\<close>

text \<open>A call of one of the five balance-changing methods, with its arguments.\<close>

datatype call =
    Deposit jsval rat string string string
  | Withdraw jsval rat string
  | PlaceBet jsval rat jsval
  | ProcessWinnings jsval rat jsval
  | Cashout jsval rat jsval

fun perform :: "env \<Rightarrow> call \<Rightarrow> txResult io" where
  "perform E (Deposit uid a d pm c) = deposit E uid a d pm c"
| "perform E (Withdraw uid a d) = withdraw E uid a d"
| "perform E (PlaceBet uid a g) = placeBet E uid a g"
| "perform E (ProcessWinnings uid a g) = processWinnings E uid a g"
| "perform E (Cashout uid a g) = cashout E uid a g"

text \<open>
  A run: calls one after another, each in its own environment; a call that fails leaves
  the run going, as a failed request leaves the server.
\<close>

fun run :: "(env \<times> call) list \<Rightarrow> world \<Rightarrow> world" where
  "run [] s = s"
| "run ((E, c) # rest) s = run rest (snd (perform E c s))"

text \<open>The run in which every call has to succeed: \<open>None\<close> when one of them fails.\<close>

fun run_ok :: "(env \<times> call) list \<Rightarrow> world \<Rightarrow> world option" where
  "run_ok [] s = Some s"
| "run_ok ((E, c) # rest) s =
     (case perform E c s of
        (Inl e, s') \<Rightarrow> None
      | (Inr res, s') \<Rightarrow> run_ok rest s')"

definition initial_world :: world where
  "initial_world =
     \<lparr>locks = Map.empty, cache = Map.empty,
      ledger = \<lparr>wallets = [], transactions = []\<rparr>, trace = []\<rparr>"

text \<open>The events an execution adds to the trace.\<close>

definition new_events :: "world \<Rightarrow> world \<Rightarrow> event list" where
  "new_events s s' = drop (length (trace s)) (trace s')"

section \<open>Notions used in the properties\<close>

text \<open>The ledger calls among a list of events: user, kind and amount passed.\<close>

fun ledger_calls :: "event list \<Rightarrow> (jsval \<times> string \<times> rat) list" where
  "ledger_calls [] = []"
| "ledger_calls (LedgerCalled u k a # es) = (u, k, a) # ledger_calls es"
| "ledger_calls (e # es) = ledger_calls es"

text \<open>
  The steps \<open>releaseWalletLock\<close> takes after it has been entered: the unlock script and
  its two log events.
\<close>

fun is_release_step :: "event \<Rightarrow> bool" where
  "is_release_step (RedisEval k t) = True"
| "is_release_step (Logged name details) =
     (name = ''WALLET_LOCK_RELEASED'' \<or> name = ''WALLET_LOCK_RELEASE_FAILED'')"
| "is_release_step e = False"

text \<open>The steps of the reconciliation proper: the read of the ledger and the correction.\<close>

fun is_reconcile_step :: "event \<Rightarrow> bool" where
  "is_reconcile_step (HistoryRead u) = True"
| "is_reconcile_step (BalanceCorrected w b) = True"
| "is_reconcile_step e = False"

text \<open>
  An execution ends with the release of a lock: going back from its last event over
  the steps of the release, the event met is the entry of \<open>releaseWalletLock\<close> with
  the key and the token of that lock.
\<close>

definition released_last :: "string \<Rightarrow> string \<Rightarrow> event list \<Rightarrow> bool" where
  "released_last k t evs \<longleftrightarrow>
     (case dropWhile is_release_step (rev evs) of
        [] \<Rightarrow> False
      | e # _ \<Rightarrow> e = ReleaseCalled k t)"

text \<open>
  The lock of a user can be taken in an execution: the key-value service answers and
  the key of the user is absent.
\<close>

definition lock_free :: "env \<Rightarrow> jsval \<Rightarrow> world \<Rightarrow> bool" where
  "lock_free E uid s \<longleftrightarrow>
     throws E Acquire_getClient = None \<and> throws E Acquire_set = None \<and>
     locks s (''wallet_lock:'' @ js_toString uid) = None"

text \<open>
  Two frame conditions on an action. An orderly action leaves the lock keys alone and
  only adds events; a quiet one, moreover, leaves the ledger alone and makes no ledger
  call.
\<close>

definition orderly :: "'a io \<Rightarrow> bool" where
  "orderly m \<longleftrightarrow>
     (\<forall>s. locks (snd (m s)) = locks s \<and> (\<exists>ev. trace (snd (m s)) = trace s @ ev))"

definition quiet :: "'a io \<Rightarrow> bool" where
  "quiet m \<longleftrightarrow>
     (\<forall>s. ledger (snd (m s)) = ledger s \<and> locks (snd (m s)) = locks s \<and>
          (\<exists>ev. trace (snd (m s)) = trace s @ ev \<and> ledger_calls ev = []))"

text \<open>
  The ledger invariant of the spec (3): wallet ids are unique, every row belongs to a
  wallet, and for every wallet the stored balance is the sum of the amounts of its rows
  and the \<open>balanceAfter\<close> of its newest row.
\<close>

definition ledger_consistent :: "ledgerStore \<Rightarrow> bool" where
  "ledger_consistent led \<longleftrightarrow>
     distinct (map walletId (wallets led)) \<and>
     (\<forall>t \<in> set (transactions led). tx_walletId t \<in> set (map walletId (wallets led))) \<and>
     (\<forall>w \<in> set (wallets led).
        balance w = calculatedFromHistory led (walletId w) \<and>
        (case walletTransactions led (walletId w) of
           [] \<Rightarrow> True
         | t # _ \<Rightarrow> balanceAfter t = balance w))"

text \<open>
  An operation on a user's wallet has left with the lock released: the execution ends
  with the release of the user's lock under the token of this execution, and when the
  release itself went through the key is absent afterwards.
\<close>

definition exits_released :: "env \<Rightarrow> jsval \<Rightarrow> world \<Rightarrow> (error + 'a) \<times> world \<Rightarrow> bool" where
  "exits_released E uid s out \<longleftrightarrow>
     released_last (''wallet_lock:'' @ js_toString uid) (uuid E) (new_events s (snd out)) \<and>
     (throws E Release_getClient = None \<and> throws E Release_eval = None \<longrightarrow>
        locks (snd out) (''wallet_lock:'' @ js_toString uid) = None)"

text \<open>The write of the balance cache throws, with message \<open>m\<close>.\<close>

definition cache_write_fails :: "env \<Rightarrow> string \<Rightarrow> bool" where
  "cache_write_fails E m \<longleftrightarrow>
     throws E Cache_getClient = Some m \<or>
     (throws E Cache_getClient = None \<and> throws E Cache_set = Some m)"

text \<open>
  What an operation does when the cache write has failed after the ledger write gave
  the ledger \<open>led\<close>: it fails, with the error of the cache write when the release goes
  through, the failure is logged under the operation's failure event, and the ledger
  is \<open>led\<close>.
\<close>

definition cache_failure_propagated ::
  "env \<Rightarrow> string \<Rightarrow> string \<Rightarrow> ledgerStore \<Rightarrow> world \<Rightarrow> (error + 'a) \<times> world \<Rightarrow> bool" where
  "cache_failure_propagated E m failed led s out \<longleftrightarrow>
     isl (fst out) \<and>
     (throws E Release_getClient = None \<and> throws E Release_eval = None \<longrightarrow>
        fst out = Inl (Error m)) \<and>
     Logged failed [m] \<in> set (new_events s (snd out)) \<and>
     ledger (snd out) = led"

section \<open>Sample executions\<close>

text \<open>An environment in which no external call throws.\<close>

definition E0 :: env where
  "E0 = \<lparr>throws = (\<lambda>_. None), uuid = ''token-B'', walletSocket = True,
          newWalletId = ''w-1'', newTransactionId = ''t-1'', clock = 0\<rparr>"

text \<open>A state in which another holder, A, has the lock of user \<open>u1\<close>.\<close>

definition held_by_A :: world where
  "held_by_A = initial_world\<lparr>locks := [''wallet_lock:u1'' \<mapsto> ''token-A'']\<rparr>"

text \<open>Two game results.\<close>

definition game1 :: "player gameResult" where
  "game1 = \<lparr>gameId = ''g1'', crashPoint = 5,
            players = [\<lparr>playerId = ''p1'', betAmount = 200, status = ''won''\<rparr>]\<rparr>"

definition game2 :: "player gameResult" where
  "game2 = \<lparr>gameId = ''g2'', crashPoint = 7,
            players = [\<lparr>playerId = ''p1'', betAmount = 50, status = ''lost''\<rparr>,
                       \<lparr>playerId = ''p2'', betAmount = 10, status = ''won''\<rparr>]\<rparr>"

text \<open>Environments in which the ledger, or the write of the balance cache, throws.\<close>

definition E_ledger_down :: env where
  "E_ledger_down = E0\<lparr>throws := (\<lambda>c. if c = Ledger_call then Some ''ledger down'' else None)\<rparr>"

definition E_cache_down :: env where
  "E_cache_down = E0\<lparr>throws := (\<lambda>c. if c = Cache_set then Some ''cache down'' else None)\<rparr>"

text \<open>
  The scenario of the spec (8): a new wallet, then a deposit of 1000, a bet of 200,
  winnings of 500 and a cashout of 1300, each call with a transaction id of its own.
\<close>

definition E_tx :: "string \<Rightarrow> env" where
  "E_tx t = E0\<lparr>newTransactionId := t\<rparr>"

definition created :: world where
  "created = snd (createWallet E0 (JStr ''u1'') initial_world)"

definition scenario :: "(env \<times> call) list" where
  "scenario =
     [(E_tx ''t-1'', Deposit (JStr ''u1'') 1000 ''Manual Deposit'' ''manual'' ''KSH''),
      (E_tx ''t-2'', PlaceBet (JStr ''u1'') 200 (JStr ''g1'')),
      (E_tx ''t-3'', ProcessWinnings (JStr ''u1'') 500 (JStr ''g1'')),
      (E_tx ''t-4'', Cashout (JStr ''u1'') 1300 (JStr ''g1''))]"

text \<open>
  An environment in which the key-value client cannot be obtained for the balance read,
  and a state in which the stored balance of the new wallet (50) has drifted from its
  history (no rows, sum 0).
\<close>

definition E_client_down :: env where
  "E_client_down = E0\<lparr>throws := (\<lambda>c. if c = Cache_getClient then Some ''redis down'' else None)\<rparr>"

definition drifted :: world where
  "drifted = created\<lparr>ledger := (ledger created)\<lparr>wallets :=
               setBalance ''w-1'' 50 (wallets (ledger created))\<rparr>\<rparr>"

section \<open>Properties of the game history store\<close>

lemma saveGameResult_history:
  "length (gameHistory repo) \<le> 100 \<Longrightarrow>
   gameHistory (fst (saveGameResult now g repo)) = take 100 (storedEntry now g # gameHistory repo)"
proof (cases "length (gameHistory repo) = 100")
  case True
  have "butlast (storedEntry now g # gameHistory repo) =
        take (length (gameHistory repo)) (storedEntry now g # gameHistory repo)"
    by (simp add: butlast_conv_take del: butlast.simps take_Suc_Cons)
  then show ?thesis
    using True by (simp add: saveGameResult_def js_pop_def Let_def del: butlast.simps)
next
  case False
  assume "length (gameHistory repo) \<le> 100"
  with False have "length (gameHistory repo) < 100" by simp
  then show ?thesis by (simp add: saveGameResult_def js_pop_def Let_def)
qed

lemma take_append_take: "take n (xs @ take n ys) = take n (xs @ ys)"
  by (simp add: min_def)

lemma saveAll_history:
  "length (gameHistory repo) \<le> 100 \<Longrightarrow>
   gameHistory (saveAll saves repo) = take 100 (rev (entriesOf saves) @ gameHistory repo)"
proof (induction saves arbitrary: repo)
  case Nil
  then show ?case by (simp add: entriesOf_def)
next
  case (Cons s saves)
  obtain now g where s: "s = (now, g)" by (cases s)
  let ?repo' = "fst (saveGameResult now g repo)"
  have h: "gameHistory ?repo' = take 100 (storedEntry now g # gameHistory repo)"
    using Cons.prems by (rule saveGameResult_history)
  then have len: "length (gameHistory ?repo') \<le> 100" by simp
  have "gameHistory (saveAll (s # saves) repo) =
        take 100 (rev (entriesOf saves) @ gameHistory ?repo')"
    using Cons.IH [OF len] by (simp add: s)
  also have "\<dots> = take 100 (rev (entriesOf saves) @ storedEntry now g # gameHistory repo)"
    by (simp only: h take_append_take)
  finally show ?case by (simp add: s entriesOf_def)
qed

lemma js_slice0_nonneg: "0 \<le> l \<Longrightarrow> js_slice0 xs l = take (nat l) xs"
  by (simp add: js_slice0_def Let_def min_def)

text \<open>
  Claim C10. Saving keeps the bound of 100 entries; after any run of saves from the
  empty store the history is the (at most) 100 latest entries, newest first;
  \<open>getGameHistory\<close> with a non-negative limit returns the first \<open>limit\<close> of them (10
  without a limit); \<open>getLastGameResult\<close> returns the entry of the latest save, and
  null when nothing was saved.
\<close>

theorem game_history_invariant:
  fixes saves :: "(nat \<times> ('a player_scheme, 'b) gameResult_scheme) list"
    and g :: "('a player_scheme, 'b) gameResult_scheme"
  shows "(length (gameHistory r) \<le> 100 \<longrightarrow>
            length (gameHistory (fst (saveGameResult now g r))) \<le> 100
          \<and> getLastGameResult (fst (saveGameResult now g r)) = Some (storedEntry now g)
          \<and> snd (saveGameResult now g r) = g)
       \<and> gameHistory (saveAll saves GameRepository_new) = take 100 (rev (entriesOf saves))
       \<and> length (gameHistory (saveAll saves GameRepository_new)) \<le> 100
       \<and> (0 \<le> limit \<longrightarrow>
            getGameHistory (Some limit) (saveAll saves GameRepository_new) =
              take (nat limit) (take 100 (rev (entriesOf saves))))
       \<and> getGameHistory None (saveAll saves GameRepository_new) = take 10 (rev (entriesOf saves))
       \<and> getLastGameResult (saveAll saves GameRepository_new) =
            (if saves = [] then None else Some (last (entriesOf saves)))"
proof -
  let ?repo = "saveAll saves GameRepository_new"
  have hist: "gameHistory ?repo = take 100 (rev (entriesOf saves))"
    using saveAll_history [of GameRepository_new saves]
    by (simp add: GameRepository_new_def)
  have step: "length (gameHistory r) \<le> 100 \<longrightarrow>
            length (gameHistory (fst (saveGameResult now g r))) \<le> 100
          \<and> getLastGameResult (fst (saveGameResult now g r)) = Some (storedEntry now g)
          \<and> snd (saveGameResult now g r) = g"
    by (simp add: saveGameResult_history getLastGameResult_def)
       (simp add: saveGameResult_def Let_def)
  have lim: "0 \<le> limit \<longrightarrow>
       getGameHistory (Some limit) ?repo = take (nat limit) (take 100 (rev (entriesOf saves)))"
    by (simp add: getGameHistory_def js_slice0_nonneg hist)
  have dflt: "getGameHistory None ?repo = take 10 (rev (entriesOf saves))"
    by (simp add: getGameHistory_def js_slice0_nonneg hist min_def)
  have lastr: "getLastGameResult ?repo =
            (if saves = [] then None else Some (last (entriesOf saves)))"
  proof (cases "rev (entriesOf saves)")
    case Nil
    then show ?thesis
      by (simp add: getLastGameResult_def entriesOf_def GameRepository_new_def)
  next
    case (Cons e es)
    then have ne: "saves \<noteq> []" by (auto simp: entriesOf_def)
    have "last (entriesOf saves) = hd (rev (entriesOf saves))"
      using ne by (simp add: hd_rev entriesOf_def)
    then show ?thesis using Cons ne by (simp add: getLastGameResult_def hist)
  qed
  show ?thesis using hist step lim dflt lastr by simp
qed

text \<open>
  Two games saved one after the other: the second is the last game result and the
  first entry of the history; before any save there is no last game result.
\<close>

theorem game_history_invariant_witness:
  "getLastGameResult (saveAll [(1, game1), (2, game2)] GameRepository_new)
     = Some (storedEntry 2 game2)
   \<and> getGameHistory (Some 1) (saveAll [(1, game1), (2, game2)] GameRepository_new)
     = [storedEntry 2 game2]
   \<and> gameHistory (saveAll [(1, game1), (2, game2)] GameRepository_new)
     = [storedEntry 2 game2, storedEntry 1 game1]
   \<and> getLastGameResult (fst (saveGameResult 1 game1 GameRepository_new))
     = Some (storedEntry 1 game1)
   \<and> getLastGameResult (saveAll ([] :: (nat \<times> player gameResult) list) GameRepository_new) = None"
  using game_history_invariant
          [where saves = "[(1, game1), (2, game2)]" and r = GameRepository_new
             and limit = 1 and g = game1 and now = 1]
        game_history_invariant
          [where saves = "[] :: (nat \<times> player gameResult) list" and r = GameRepository_new
             and limit = 1 and g = game1 and now = 1]
  by (simp add: entriesOf_def GameRepository_new_def)

section \<open>Basic facts about the service\<close>

lemmas io_defs = ret_def throw_def bind_def emit_def ext_def catch_log_rethrow_def

lemma bind_ret_unit: "bind (ret ()) f = f ()"
  by (rule ext) (simp add: bind_def ret_def)

lemma deposit_locked_eq:
  "deposit_locked E uid amt d pm c =
   mutation_locked E uid amt ''deposit'' amt [d, pm, c] None ''WALLET_DEPOSIT_COMPLETED''"
  by (simp add: deposit_locked_def mutation_locked_def notify_def
        WalletRepository_deposit_def bind_ret_unit)

lemma withdraw_locked_eq:
  "withdraw_locked E uid amt d =
   mutation_locked E uid amt ''withdraw'' amt [d] None ''WALLET_WITHDRAWAL_COMPLETED''"
  by (simp add: withdraw_locked_def mutation_locked_def notify_def bind_ret_unit)

lemma placeBet_locked_eq:
  "placeBet_locked E uid amt g =
   mutation_locked E uid amt ''deposit'' (- amt)
     [''Bet Placement for Game '' @ js_toString g, ''game_bet'', ''KSH'']
     (Some ''bet'') ''WALLET_BET_PLACED''"
  by (simp add: placeBet_locked_def mutation_locked_def notify_def WalletRepository_deposit_def)

lemma processWinnings_locked_eq:
  "processWinnings_locked E uid amt g =
   mutation_locked E uid amt ''deposit'' amt
     [''Game Winnings for Game '' @ js_toString g, ''game_win'', ''KSH'']
     (Some ''win'') ''WALLET_WINNINGS_PROCESSED''"
  by (simp add: processWinnings_locked_def mutation_locked_def notify_def
        WalletRepository_deposit_def)

lemma cashout_locked_eq:
  "cashout_locked E uid amt g =
   mutation_locked E uid amt ''deposit'' amt
     [''Game Cashout for Game '' @ js_toString g, ''game_cashout'', ''KSH'']
     (Some ''cashout'') ''WALLET_CASHOUT_SUCCESS''"
  by (simp add: cashout_locked_def mutation_locked_def notify_def WalletRepository_deposit_def)

lemma deposit_mutation:
  "deposit E uid amt d pm c =
   mutation E uid amt ''Deposit amount must be positive'' ''deposit_transaction''
     ''deposit'' amt [d, pm, c] None ''WALLET_DEPOSIT_COMPLETED'' ''WALLET_DEPOSIT_FAILED''"
  unfolding deposit_def mutation_def deposit_locked_eq ..

lemma withdraw_mutation:
  "withdraw E uid amt d =
   mutation E uid amt ''Withdrawal amount must be positive'' ''withdrawal_transaction''
     ''withdraw'' amt [d] None ''WALLET_WITHDRAWAL_COMPLETED'' ''WALLET_WITHDRAWAL_FAILED''"
  unfolding withdraw_def mutation_def withdraw_locked_eq ..

lemma placeBet_mutation:
  "placeBet E uid amt g =
   mutation E uid amt ''Bet amount must be positive'' ''bet_placement_transaction''
     ''deposit'' (- amt) [''Bet Placement for Game '' @ js_toString g, ''game_bet'', ''KSH'']
     (Some ''bet'') ''WALLET_BET_PLACED'' ''WALLET_BET_PLACEMENT_FAILED''"
  unfolding placeBet_def mutation_def placeBet_locked_eq ..

lemma processWinnings_mutation:
  "processWinnings E uid amt g =
   mutation E uid amt ''Win amount must be positive'' ''game_winnings_transaction''
     ''deposit'' amt [''Game Winnings for Game '' @ js_toString g, ''game_win'', ''KSH'']
     (Some ''win'') ''WALLET_WINNINGS_PROCESSED'' ''WALLET_WINNINGS_PROCESSING_FAILED''"
  unfolding processWinnings_def mutation_def processWinnings_locked_eq ..

lemma cashout_mutation:
  "cashout E uid amt g =
   mutation E uid amt ''Cashout amount must be positive'' ''cashout_transaction''
     ''deposit'' amt [''Game Cashout for Game '' @ js_toString g, ''game_cashout'', ''KSH'']
     (Some ''cashout'') ''WALLET_CASHOUT_SUCCESS'' ''WALLET_CASHOUT_FAILED''"
  unfolding cashout_def mutation_def cashout_locked_eq ..

lemma release_locks:
  "locks (snd (releaseWalletLock E key val s)) =
     (if throws E Release_getClient = None \<and> throws E Release_eval = None \<and> locks s key = Some val
      then (locks s)(key := None) else locks s)"
  by (simp add: releaseWalletLock_def redis_eval_unlock_def unlockScript_def io_defs split: option.splits)

lemma release_ok:
  "throws E Release_getClient = None \<Longrightarrow> throws E Release_eval = None \<Longrightarrow>
   fst (releaseWalletLock E key val s) = Inr ()"
  by (simp add: releaseWalletLock_def redis_eval_unlock_def unlockScript_def io_defs split: option.splits)

lemma mutation_invalid:
  "amt \<le> 0 \<Longrightarrow> mutation E uid amt invalid lockReason type passed meta kind done failed s =
     (Inl (Error invalid), s\<lparr>trace := trace s @ [Logged failed [invalid]]\<rparr>)"
  by (simp add: mutation_def try_catch_finally_def finally_release_def)

lemma invalid_uid:
  "\<not> truthy uid \<Longrightarrow> getUserProfileBalance E uid s =
     (Inl (Error ''Invalid User ID''),
      s\<lparr>trace := trace s @ [Logged ''INVALID_USER_ID'' [''User ID is undefined or null''],
                            Logged ''User profile balance retrieval failed'' [''Invalid User ID'']]\<rparr>)"
  by (simp add: getUserProfileBalance_def io_defs)

lemma acquire_result:
  "acquireWalletLock E uid r s =
    (let k = ''wallet_lock:'' @ js_toString uid in
     case throws E Acquire_getClient of Some m \<Rightarrow> (Inl (Error m), s)
     | None \<Rightarrow> (case throws E Acquire_set of
          Some m \<Rightarrow> (Inl (Error m), s\<lparr>trace := trace s @ [RedisSetNX k (uuid E), Logged ''WALLET_LOCK_ACQUISITION_FAILED'' [r, m]]\<rparr>)
        | None \<Rightarrow> (case locks s k of
             None \<Rightarrow> (Inr \<lparr>lockKey = k, lockValue = uuid E\<rparr>,
                       s\<lparr>trace := trace s @ [RedisSetNX k (uuid E)], locks := (locks s)(k \<mapsto> uuid E)\<rparr>)
           | Some t \<Rightarrow> (Inl (Error ''Wallet transaction in progress''),
                       s\<lparr>trace := trace s @ [RedisSetNX k (uuid E), Logged ''WALLET_LOCK_CONTENTION'' [r],
                            Logged ''WALLET_LOCK_ACQUISITION_FAILED'' [r, ''Wallet transaction in progress'']]\<rparr>))))"
  by (simp add: acquireWalletLock_def redis_set_nx_def io_defs Let_def split: option.splits)

lemma release_untouched:
  "ledger (snd (releaseWalletLock E key tok s)) = ledger s \<and>
   cache (snd (releaseWalletLock E key tok s)) = cache s"
  by (simp add: releaseWalletLock_def redis_eval_unlock_def unlockScript_def io_defs
        split: option.splits)

section \<open>Events and frame conditions of the parts of an operation\<close>

lemma ledger_calls_append: "ledger_calls (xs @ ys) = ledger_calls xs @ ledger_calls ys"
  by (induction xs rule: ledger_calls.induct) simp_all

lemma new_events_append: "trace s' = trace s @ ev \<Longrightarrow> new_events s s' = ev"
  by (simp add: new_events_def)

lemma release_steps_no_ledger_call: "list_all is_release_step evs \<Longrightarrow> ledger_calls evs = []"
  by (induction evs rule: ledger_calls.induct) simp_all

lemma released_lastI:
  "list_all is_release_step post \<Longrightarrow> released_last k t (pre @ ReleaseCalled k t # post)"
proof -
  assume "list_all is_release_step post"
  then have "\<forall>e \<in> set (rev post). is_release_step e" by (simp add: list_all_iff)
  then have "dropWhile is_release_step (rev post @ ReleaseCalled k t # rev pre)
             = ReleaseCalled k t # rev pre"
    by (simp add: dropWhile_append3)
  then show ?thesis by (simp add: released_last_def)
qed

lemma acquire_ok:
  "lock_free E uid s \<Longrightarrow>
   acquireWalletLock E uid r s =
     (Inr \<lparr>lockKey = ''wallet_lock:'' @ js_toString uid, lockValue = uuid E\<rparr>,
      s\<lparr>trace := trace s @ [RedisSetNX (''wallet_lock:'' @ js_toString uid) (uuid E)],
        locks := (locks s)(''wallet_lock:'' @ js_toString uid \<mapsto> uuid E)\<rparr>)"
  by (simp add: acquire_result lock_free_def Let_def)

lemma acquire_fail:
  assumes "\<not> lock_free E uid s"
  shows "\<exists>e. fst (acquireWalletLock E uid r s) = Inl e"
    and "locks (snd (acquireWalletLock E uid r s)) = locks s"
    and "ledger (snd (acquireWalletLock E uid r s)) = ledger s"
    and "cache (snd (acquireWalletLock E uid r s)) = cache s"
    and "\<exists>ev. trace (snd (acquireWalletLock E uid r s)) = trace s @ ev \<and> ledger_calls ev = []"
  using assms
  by (auto simp add: acquire_result lock_free_def Let_def split: option.splits)

lemma release_trace:
  "\<exists>post. trace (snd (releaseWalletLock E k t s)) = trace s @ ReleaseCalled k t # post
          \<and> list_all is_release_step post"
  by (cases "throws E Release_getClient"; cases "throws E Release_eval")
     (simp_all add: releaseWalletLock_def redis_eval_unlock_def unlockScript_def io_defs)

lemma recordTransaction_result:
  "recordTransaction E uid type amt meta s =
     (case throws E Ledger_call of
        Some m \<Rightarrow> (Inl (Error m), s\<lparr>trace := trace s @ [LedgerCalled uid type amt]\<rparr>)
      | None \<Rightarrow>
          (case ledger_record E (ledger s) uid type amt meta of
             Inl e \<Rightarrow> (Inl e, s\<lparr>trace := trace s @ [LedgerCalled uid type amt]\<rparr>)
           | Inr (res, led) \<Rightarrow>
               (Inr res, s\<lparr>trace := trace s @ [LedgerCalled uid type amt], ledger := led\<rparr>)))"
  by (simp add: recordTransaction_def io_defs split: option.splits sum.splits prod.splits)

subsection \<open>Frame conditions\<close>

lemma quiet_orderly: "quiet m \<Longrightarrow> orderly m"
  unfolding quiet_def orderly_def by blast

lemma quiet_ret: "quiet (ret x)"
  by (simp add: quiet_def ret_def)

lemma quiet_ext: "quiet (ext E c)"
  by (simp add: quiet_def ext_def split: option.splits)

lemma quiet_bind:
  assumes m: "quiet m" and f: "\<And>x. quiet (f x)"
  shows "quiet (bind m f)"
  unfolding quiet_def
proof
  fix s
  obtain r s1 where ms: "m s = (r, s1)" by (cases "m s")
  from m obtain ev1 where 1: "ledger s1 = ledger s" "locks s1 = locks s"
      "trace s1 = trace s @ ev1" "ledger_calls ev1 = []"
    using ms unfolding quiet_def by (metis snd_conv)
  show "ledger (snd (bind m f s)) = ledger s \<and> locks (snd (bind m f s)) = locks s \<and>
        (\<exists>ev. trace (snd (bind m f s)) = trace s @ ev \<and> ledger_calls ev = [])"
  proof (cases r)
    case (Inl e)
    then show ?thesis using ms 1 by (simp add: bind_def)
  next
    case (Inr x)
    from f [of x] obtain ev2 where 2: "ledger (snd (f x s1)) = ledger s1"
        "locks (snd (f x s1)) = locks s1"
        "trace (snd (f x s1)) = trace s1 @ ev2" "ledger_calls ev2 = []"
      unfolding quiet_def by blast
    have "trace (snd (f x s1)) = trace s @ (ev1 @ ev2)" using 1 2 by simp
    moreover have "ledger_calls (ev1 @ ev2) = []" using 1 2 by (simp add: ledger_calls_append)
    ultimately show ?thesis using Inr ms 1 2 by (auto simp add: bind_def)
  qed
qed

lemma quiet_log: "quiet (emit (Logged name details))"
  by (simp add: quiet_def emit_def)

lemma quiet_socket: "quiet (emit (SocketEmitted uid k amt))"
  by (simp add: quiet_def emit_def)

lemma quiet_updateBalanceCache: "quiet (updateBalanceCache E uid b)"
  unfolding updateBalanceCache_def cache_set_def
  by (intro quiet_bind quiet_ext) (simp_all add: quiet_def emit_def)

lemma quiet_broadcast: "quiet (broadcastWalletUpdate E uid k amt)"
  unfolding broadcastWalletUpdate_def
  by (cases "walletSocket E") (simp_all add: quiet_bind quiet_ext quiet_ret quiet_socket)

lemma quiet_notify: "quiet (notify E uid kind amt)"
  unfolding notify_def
  by (cases kind) (simp_all add: quiet_ret quiet_broadcast)

lemma quiet_after_write:
  "quiet (bind (updateBalanceCache E uid b) (\<lambda>_.
          bind (notify E uid kind amt) (\<lambda>_.
          bind (emit (Logged done [])) (\<lambda>_. ret result))))"
  by (intro quiet_bind quiet_updateBalanceCache quiet_notify quiet_log quiet_ret)

lemma mutation_locked_effect:
  fixes E uid amt type passed meta kind okname s
  defines "s' \<equiv> snd (mutation_locked E uid amt type passed meta kind okname s)"
  shows "\<exists>ev. trace s' = trace s @ LedgerCalled uid type passed # ev \<and> ledger_calls ev = []"
    and "locks s' = locks s"
    and "ledger s' = ledger s \<or>
         (\<exists>res. ledger_record E (ledger s) uid type passed meta = Inr (res, ledger s'))"
proof -
  let ?after = "\<lambda>result. bind (updateBalanceCache E uid (newBalance result)) (\<lambda>_.
          bind (notify E uid kind amt) (\<lambda>_.
          bind (emit (Logged okname [])) (\<lambda>_. ret result)))"
  have ml: "mutation_locked E uid amt type passed meta kind okname s =
            bind (recordTransaction E uid type passed meta) ?after s"
    by (simp add: mutation_locked_def)
  have q: "\<And>result s1. ledger (snd (?after result s1)) = ledger s1 \<and>
             locks (snd (?after result s1)) = locks s1 \<and>
             (\<exists>ev. trace (snd (?after result s1)) = trace s1 @ ev \<and> ledger_calls ev = [])"
    by (rule quiet_after_write [unfolded quiet_def, rule_format])
  have all: "(\<exists>ev. trace s' = trace s @ LedgerCalled uid type passed # ev \<and> ledger_calls ev = [])
     \<and> locks s' = locks s
     \<and> (ledger s' = ledger s \<or>
         (\<exists>res. ledger_record E (ledger s) uid type passed meta = Inr (res, ledger s')))"
  proof (cases "throws E Ledger_call")
    case (Some m)
    then show ?thesis unfolding s'_def ml
      by (simp add: bind_def recordTransaction_result)
  next
    case None
    show ?thesis
    proof (cases "ledger_record E (ledger s) uid type passed meta")
      case (Inl e)
      then show ?thesis using None unfolding s'_def ml
        by (simp add: bind_def recordTransaction_result)
    next
      case (Inr p)
      obtain res led where p: "p = (res, led)" by (cases p)
      let ?s1 = "s\<lparr>trace := trace s @ [LedgerCalled uid type passed], ledger := led\<rparr>"
      have s': "s' = snd (?after res ?s1)"
        using None Inr p unfolding s'_def ml by (simp add: bind_def recordTransaction_result)
      from q [of res ?s1] obtain ev where
        "ledger s' = led" "locks s' = locks s"
        "trace s' = trace s @ LedgerCalled uid type passed # ev" "ledger_calls ev = []"
        unfolding s' by auto
      then show ?thesis using Inr p by auto
    qed
  qed
  from all show "\<exists>ev. trace s' = trace s @ LedgerCalled uid type passed # ev \<and> ledger_calls ev = []"
    and "locks s' = locks s"
    and "ledger s' = ledger s \<or>
         (\<exists>res. ledger_record E (ledger s) uid type passed meta = Inr (res, ledger s'))"
    by blast+
qed

lemma finally_release_effect:
  fixes E l r s
  defines "out \<equiv> finally_release E (Some l) (r, s)"
  shows "\<exists>post. trace (snd out) = trace s @ ReleaseCalled (lockKey l) (lockValue l) # post
               \<and> list_all is_release_step post"
    and "ledger (snd out) = ledger s"
    and "cache (snd out) = cache s"
    and "locks (snd out) =
          (if throws E Release_getClient = None \<and> throws E Release_eval = None \<and>
              locks s (lockKey l) = Some (lockValue l)
           then (locks s)(lockKey l := None) else locks s)"
    and "fst out = r \<or> (\<exists>e. fst out = Inl e)"
    and "throws E Release_getClient = None \<and> throws E Release_eval = None \<longrightarrow> fst out = r"
proof -
  obtain q s' where rel: "releaseWalletLock E (lockKey l) (lockValue l) s = (q, s')"
    by (cases "releaseWalletLock E (lockKey l) (lockValue l) s")
  have s': "snd out = s'"
    using rel by (cases q) (simp_all add: out_def finally_release_def)
  have s'': "s' = snd (releaseWalletLock E (lockKey l) (lockValue l) s)"
    using rel by simp
  show "\<exists>post. trace (snd out) = trace s @ ReleaseCalled (lockKey l) (lockValue l) # post
               \<and> list_all is_release_step post"
    unfolding s' s'' by (rule release_trace)
  show "ledger (snd out) = ledger s" "cache (snd out) = cache s"
    unfolding s' s'' by (simp_all add: release_untouched)
  show "locks (snd out) =
          (if throws E Release_getClient = None \<and> throws E Release_eval = None \<and>
              locks s (lockKey l) = Some (lockValue l)
           then (locks s)(lockKey l := None) else locks s)"
    unfolding s' s'' by (rule release_locks)
  show "fst out = r \<or> (\<exists>e. fst out = Inl e)"
    using rel by (cases q) (simp_all add: out_def finally_release_def)
  show "throws E Release_getClient = None \<and> throws E Release_eval = None \<longrightarrow> fst out = r"
  proof
    assume "throws E Release_getClient = None \<and> throws E Release_eval = None"
    then have "fst (releaseWalletLock E (lockKey l) (lockValue l) s) = Inr ()"
      by (simp add: release_ok)
    then show "fst out = r" using rel by (simp add: out_def finally_release_def)
  qed
qed

text \<open>
  The shape of an execution that takes the lock: the conditional set, the events of
  the locked part, the failure log if that part failed, and the release; and of one that
  does not: an error, with locks, cache and ledger as they were.
\<close>

lemma locked_run:
  fixes E uid s name why rest ev
  assumes free: "lock_free E uid s"
  defines "k \<equiv> ''wallet_lock:'' @ js_toString uid"
  defines "s1 \<equiv> s\<lparr>trace := trace s @ [RedisSetNX k (uuid E)], locks := (locks s)(k \<mapsto> uuid E)\<rparr>"
  defines "out \<equiv> try_catch_finally E name (locked_section (acquireWalletLock E uid why) rest) s"
  assumes rest: "locks (snd (rest s1)) = locks s1" "trace (snd (rest s1)) = trace s1 @ ev"
  shows "\<exists>lg post. trace (snd out) = trace s @ RedisSetNX k (uuid E) # ev @ lg @ ReleaseCalled k (uuid E) # post
               \<and> list_all is_release_step post
               \<and> (case fst (rest s1) of Inl e \<Rightarrow> lg = [Logged name [message e]] | Inr x \<Rightarrow> lg = [])"
    and "ledger (snd out) = ledger (snd (rest s1))"
    and "throws E Release_getClient = None \<and> throws E Release_eval = None \<longrightarrow>
           locks (snd out) k = None \<and> fst out = fst (rest s1)"
    and "isl (fst (rest s1)) \<longrightarrow> isl (fst out)"
    and "fst out = fst (rest s1) \<or> isl (fst out)"
proof -
  let ?l = "\<lparr>lockKey = k, lockValue = uuid E\<rparr>"
  obtain r s2 where rs: "rest s1 = (r, s2)" by (cases "rest s1")
  define s3 where "s3 = (case r of Inl e \<Rightarrow> s2\<lparr>trace := trace s2 @ [Logged name [message e]]\<rparr>
                                  | Inr x \<Rightarrow> s2)"
  have acq: "acquireWalletLock E uid why s = (Inr ?l, s1)"
    using free by (simp add: acquire_ok k_def s1_def)
  have out: "out = finally_release E (Some ?l) (r, s3)"
    unfolding out_def try_catch_finally_def locked_section_def
    using acq rs by (cases r) (simp_all add: s3_def)
  define lg where "lg = (case r of Inl e \<Rightarrow> [Logged name [message e]] | Inr x \<Rightarrow> [])"
  have t3: "trace s3 = trace s @ RedisSetNX k (uuid E) # ev @ lg"
    using rest rs by (cases r) (simp_all add: s3_def lg_def s1_def)
  have l3: "locks s3 = locks s1" "ledger s3 = ledger s2"
    using rest rs by (cases r; simp add: s3_def)+
  from finally_release_effect(1) [of E ?l r s3] obtain post where
    post: "trace (snd out) = trace s3 @ ReleaseCalled k (uuid E) # post" "list_all is_release_step post"
    unfolding out by auto
  have "trace (snd out) = trace s @ RedisSetNX k (uuid E) # ev @ lg @ ReleaseCalled k (uuid E) # post"
    using post t3 by simp
  moreover have "case fst (rest s1) of Inl e \<Rightarrow> lg = [Logged name [message e]] | Inr x \<Rightarrow> lg = []"
    using rs by (cases r) (simp_all add: lg_def)
  ultimately show "\<exists>lg post. trace (snd out) = trace s @ RedisSetNX k (uuid E) # ev @ lg @ ReleaseCalled k (uuid E) # post
               \<and> list_all is_release_step post
               \<and> (case fst (rest s1) of Inl e \<Rightarrow> lg = [Logged name [message e]] | Inr x \<Rightarrow> lg = [])"
    using post by blast
  show "ledger (snd out) = ledger (snd (rest s1))"
    unfolding out using finally_release_effect(2) [of E ?l r s3] l3 rs by simp
  show "throws E Release_getClient = None \<and> throws E Release_eval = None \<longrightarrow>
           locks (snd out) k = None \<and> fst out = fst (rest s1)"
    unfolding out
    using finally_release_effect(4) [of E ?l r s3] finally_release_effect(6) [of E ?l r s3] l3 rs
    by (simp add: s1_def)
  show "isl (fst (rest s1)) \<longrightarrow> isl (fst out)"
    unfolding out using finally_release_effect(5) [of E ?l r s3] rs by auto
  show "fst out = fst (rest s1) \<or> isl (fst out)"
    unfolding out using finally_release_effect(5) [of E ?l r s3] rs by auto
qed

lemma unlocked_run:
  fixes E uid s name why rest
  assumes nfree: "\<not> lock_free E uid s"
  defines "out \<equiv> try_catch_finally E name (locked_section (acquireWalletLock E uid why) rest) s"
  shows "isl (fst out)"
    and "ledger (snd out) = ledger s"
    and "locks (snd out) = locks s"
    and "cache (snd out) = cache s"
    and "\<exists>ev. trace (snd out) = trace s @ ev \<and> ledger_calls ev = []"
proof -
  obtain e s1 where acq: "acquireWalletLock E uid why s = (Inl e, s1)"
    using acquire_fail(1) [OF nfree, of why]
    by (cases "acquireWalletLock E uid why s") auto
  have s1: "locks s1 = locks s" "ledger s1 = ledger s" "cache s1 = cache s"
    using acquire_fail(2,3,4) [OF nfree, of why] acq by simp_all
  obtain ev where ev: "trace s1 = trace s @ ev" "ledger_calls ev = []"
    using acquire_fail(5) [OF nfree, of why] acq by auto
  have out: "out = (Inl e, s1\<lparr>trace := trace s1 @ [Logged name [message e]]\<rparr>)"
    unfolding out_def try_catch_finally_def locked_section_def finally_release_def
    using acq by simp
  show "isl (fst out)" "ledger (snd out) = ledger s" "locks (snd out) = locks s"
    "cache (snd out) = cache s"
    using s1 by (simp_all add: out)
  have "trace (snd out) = trace s @ (ev @ [Logged name [message e]])"
    using ev by (simp add: out)
  moreover have "ledger_calls (ev @ [Logged name [message e]]) = []"
    using ev by (simp add: ledger_calls_append)
  ultimately show "\<exists>ev. trace (snd out) = trace s @ ev \<and> ledger_calls ev = []" by blast
qed

lemma mutation_positive:
  "0 < amt \<Longrightarrow>
   mutation E uid amt invalid lockReason type passed meta kind done failed =
   try_catch_finally E failed
     (locked_section (acquireWalletLock E uid lockReason)
        (mutation_locked E uid amt type passed meta kind done))"
  by (simp add: mutation_def)

section \<open>The lock manager\<close>

text \<open>
  Claim C3. With the key-value service answering, \<open>releaseWalletLock\<close> returns without
  error and deletes the key exactly when the key holds the token passed; a key that is
  absent or holds another token is left as it is (also when the service fails). The
  unlock script alone decides it.
\<close>

theorem release_deletes_only_matching_token:
  "(throws E Release_getClient = None \<and> throws E Release_eval = None \<longrightarrow>
      fst (releaseWalletLock E key tok s) = Inr () \<and>
      locks (snd (releaseWalletLock E key tok s)) =
        (if locks s key = Some tok then (locks s)(key := None) else locks s))
   \<and> (locks s key \<noteq> Some tok \<longrightarrow> locks (snd (releaseWalletLock E key tok s)) = locks s)
   \<and> fst (unlockScript (locks s) key tok) =
        (if locks s key = Some tok then (locks s)(key := None) else locks s)"
  by (simp add: release_locks release_ok unlockScript_def)

text \<open>
  Two holders: A holds the lock of \<open>u1\<close>; a release with B's token returns normally and
  A's lock stays; a release with A's token deletes it.
\<close>

theorem release_deletes_only_matching_token_witness:
  "fst (releaseWalletLock E0 ''wallet_lock:u1'' ''token-B'' held_by_A) = Inr () \<and>
   locks (snd (releaseWalletLock E0 ''wallet_lock:u1'' ''token-B'' held_by_A)) ''wallet_lock:u1''
     = Some ''token-A'' \<and>
   locks (snd (releaseWalletLock E0 ''wallet_lock:u1'' ''token-A'' held_by_A)) ''wallet_lock:u1''
     = None"
  using release_deletes_only_matching_token [of E0 "''wallet_lock:u1''" "''token-B''" held_by_A]
        release_deletes_only_matching_token [of E0 "''wallet_lock:u1''" "''token-A''" held_by_A]
  by (simp add: E0_def held_by_A_def initial_world_def)

text \<open>
  Claim C8. The lock reason has no effect on the outcome of \<open>acquireWalletLock\<close> nor on
  the lock keys: the key of the lock is \<open>wallet_lock:\<close> followed by the user id, and
  after an acquisition for one reason an acquisition for the same user under any other
  reason fails, with the contention error when the key-value service answers.
\<close>

theorem lock_key_ignores_purpose:
  "fst (acquireWalletLock E uid r1 s) = fst (acquireWalletLock E uid r2 s)
   \<and> locks (snd (acquireWalletLock E uid r1 s)) = locks (snd (acquireWalletLock E uid r2 s))
   \<and> (\<forall>l. fst (acquireWalletLock E uid r1 s) = Inr l \<longrightarrow>
          lockKey l = ''wallet_lock:'' @ js_toString uid
        \<and> (\<exists>e. fst (acquireWalletLock E' uid r2 (snd (acquireWalletLock E uid r1 s))) = Inl e)
        \<and> (throws E' Acquire_getClient = None \<and> throws E' Acquire_set = None \<longrightarrow>
             fst (acquireWalletLock E' uid r2 (snd (acquireWalletLock E uid r1 s)))
               = Inl (Error ''Wallet transaction in progress'')))"
  by (auto simp add: acquire_result Let_def split: option.splits)

theorem lock_key_ignores_purpose_witness:
  "(\<exists>l. fst (acquireWalletLock E0 (JStr ''u1'') ''deposit_transaction'' initial_world) = Inr l)
   \<and> fst (acquireWalletLock E0 (JStr ''u1'') ''bet_placement_transaction''
            (snd (acquireWalletLock E0 (JStr ''u1'') ''deposit_transaction'' initial_world)))
       = Inl (Error ''Wallet transaction in progress'')"
  using lock_key_ignores_purpose [of E0 "JStr ''u1''" "''deposit_transaction''" initial_world
          "''bet_placement_transaction''" E0]
  by (simp add: E0_def initial_world_def acquire_result Let_def)

section \<open>Validation\<close>

text \<open>
  Claim C4. A call of \<open>deposit\<close>, \<open>withdraw\<close>, \<open>placeBet\<close>, \<open>processWinnings\<close> or
  \<open>cashout\<close> with an amount of zero or less fails with the method's validation
  message, and the state it leaves differs from the state before only by the failure
  log: no lock key, no cache key and no ledger row is read or written.
\<close>

theorem nonpositive_amount_rejected_before_lock:
  "amt \<le> 0 \<Longrightarrow>
     deposit E uid amt d pm c s =
       (Inl (Error ''Deposit amount must be positive''),
        s\<lparr>trace := trace s @ [Logged ''WALLET_DEPOSIT_FAILED''
                                 [''Deposit amount must be positive'']]\<rparr>)
   \<and> withdraw E uid amt d s =
       (Inl (Error ''Withdrawal amount must be positive''),
        s\<lparr>trace := trace s @ [Logged ''WALLET_WITHDRAWAL_FAILED''
                                 [''Withdrawal amount must be positive'']]\<rparr>)
   \<and> placeBet E uid amt g s =
       (Inl (Error ''Bet amount must be positive''),
        s\<lparr>trace := trace s @ [Logged ''WALLET_BET_PLACEMENT_FAILED''
                                 [''Bet amount must be positive'']]\<rparr>)
   \<and> processWinnings E uid amt g s =
       (Inl (Error ''Win amount must be positive''),
        s\<lparr>trace := trace s @ [Logged ''WALLET_WINNINGS_PROCESSING_FAILED''
                                 [''Win amount must be positive'']]\<rparr>)
   \<and> cashout E uid amt g s =
       (Inl (Error ''Cashout amount must be positive''),
        s\<lparr>trace := trace s @ [Logged ''WALLET_CASHOUT_FAILED''
                                 [''Cashout amount must be positive'']]\<rparr>)"
  by (simp add: deposit_mutation withdraw_mutation placeBet_mutation
        processWinnings_mutation cashout_mutation mutation_invalid)

theorem nonpositive_amount_rejected_before_lock_witness:
  "(0::rat) \<le> 0
   \<and> fst (placeBet E0 (JStr ''u1'') 0 (JStr ''g1'') initial_world)
       = Inl (Error ''Bet amount must be positive'')
   \<and> locks (snd (placeBet E0 (JStr ''u1'') 0 (JStr ''g1'') initial_world)) = Map.empty
   \<and> transactions (ledger (snd (placeBet E0 (JStr ''u1'') 0 (JStr ''g1'') initial_world))) = []
   \<and> fst (withdraw E0 (JStr ''u1'') (- 5) ''w'' initial_world)
       = Inl (Error ''Withdrawal amount must be positive'')"
  using nonpositive_amount_rejected_before_lock
          [where amt = 0 and E = E0 and uid = "JStr ''u1''" and s = initial_world
             and g = "JStr ''g1''" and d = "''w''" and pm = "''manual''" and c = "''KSH''"]
        nonpositive_amount_rejected_before_lock
          [where amt = "- 5" and E = E0 and uid = "JStr ''u1''" and s = initial_world
             and g = "JStr ''g1''" and d = "''w''" and pm = "''manual''" and c = "''KSH''"]
  by (simp add: initial_world_def)

section \<open>Balance read\<close>

text \<open>
  Claim C9. For a user id that is not truthy (\<open>null\<close>, \<open>undefined\<close>, \<open>false\<close>, 0,
  \<open>NaN\<close>, the empty string) \<open>getUserProfileBalance\<close> fails with \<open>Invalid User ID\<close>;
  the state after differs from the state before by two log events only: no
  verification, no ledger read and no cache write has taken place.
\<close>

theorem falsy_user_id_rejected:
  "\<not> truthy uid \<Longrightarrow>
   getUserProfileBalance E uid s =
     (Inl (Error ''Invalid User ID''),
      s\<lparr>trace := trace s @
           [Logged ''INVALID_USER_ID'' [''User ID is undefined or null''],
            Logged ''User profile balance retrieval failed'' [''Invalid User ID'']]\<rparr>)"
  by (rule invalid_uid)

theorem falsy_user_id_rejected_witness:
  "\<not> truthy JNull \<and> \<not> truthy JUndefined \<and> \<not> truthy (JNum 0) \<and> \<not> truthy (JStr [])
   \<and> fst (getUserProfileBalance E0 JNull initial_world) = Inl (Error ''Invalid User ID'')
   \<and> fst (getUserProfileBalance E0 JUndefined initial_world) = Inl (Error ''Invalid User ID'')
   \<and> cache (snd (getUserProfileBalance E0 JNull initial_world)) = Map.empty
   \<and> ledger (snd (getUserProfileBalance E0 JNull initial_world)) = ledger initial_world"
  using falsy_user_id_rejected [of JNull E0 initial_world]
        falsy_user_id_rejected [of JUndefined E0 initial_world]
  by (simp add: initial_world_def)

text \<open>The definitions an execution on concrete arguments is evaluated with.\<close>

lemmas run_defs =
  deposit_mutation withdraw_mutation placeBet_mutation processWinnings_mutation cashout_mutation
  mutation_def mutation_locked_def try_catch_finally_def locked_section_def finally_release_def
  acquire_result releaseWalletLock_def redis_eval_unlock_def unlockScript_def
  recordTransaction_result ledger_record_def locateOrCreate_def findWallet_def setBalance_def
  updateBalanceCache_def cache_set_def notify_def broadcastWalletUpdate_def
  io_defs new_events_def lock_free_def Let_def
  E0_def E_ledger_down_def E_cache_down_def initial_world_def

section \<open>Release of the lock on every exit\<close>

lemma orderly_ret: "orderly (ret x)"
  by (simp add: orderly_def ret_def)

lemma orderly_throw: "orderly (throw e)"
  by (simp add: orderly_def throw_def)

lemma orderly_ext: "orderly (ext E c)"
  by (simp add: orderly_def ext_def split: option.splits)

lemma orderly_emit: "orderly (emit e)"
  by (simp add: orderly_def emit_def)

lemma orderly_bind:
  assumes m: "orderly m" and f: "\<And>x. orderly (f x)"
  shows "orderly (bind m f)"
  unfolding orderly_def
proof
  fix s
  obtain r s1 where ms: "m s = (r, s1)" by (cases "m s")
  from m obtain ev1 where 1: "locks s1 = locks s" "trace s1 = trace s @ ev1"
    using ms unfolding orderly_def by (metis snd_conv)
  show "locks (snd (bind m f s)) = locks s \<and> (\<exists>ev. trace (snd (bind m f s)) = trace s @ ev)"
  proof (cases r)
    case (Inl e)
    then show ?thesis using ms 1 by (simp add: bind_def)
  next
    case (Inr x)
    from f [of x] obtain ev2 where 2: "locks (snd (f x s1)) = locks s1"
        "trace (snd (f x s1)) = trace s1 @ ev2"
      unfolding orderly_def by blast
    have "trace (snd (f x s1)) = trace s @ (ev1 @ ev2)" using 1 2 by simp
    then show ?thesis using Inr ms 1 2 by (auto simp add: bind_def)
  qed
qed

lemma orderly_mutation_locked: "orderly (mutation_locked E uid amt type passed meta kind okname)"
  unfolding orderly_def
  using mutation_locked_effect(1,2) [of E uid amt type passed meta kind okname] by blast

lemma orderly_createWallet_locked: "orderly (createWallet_locked E uid)"
proof -
  have repo: "orderly (WalletRepository_createWallet E uid)"
    unfolding WalletRepository_createWallet_def
    by (intro orderly_bind orderly_emit orderly_ext)
       (simp add: orderly_def split: option.splits sum.splits prod.splits)
  have rest: "\<And>created. orderly (case created of
         None \<Rightarrow>
           bind (emit (Logged ''Wallet creation failed'' [''Unable to create wallet''])) (\<lambda>_.
           throw (Error ''Unable to create wallet''))
       | Some w \<Rightarrow>
           bind (updateBalanceCache E uid (balance w)) (\<lambda>_.
           ret w))"
    by (simp add: orderly_bind orderly_emit orderly_throw orderly_ret quiet_orderly
          quiet_updateBalanceCache split: option.splits)
  show ?thesis unfolding createWallet_locked_def by (intro orderly_bind repo rest)
qed

lemma locked_exits:
  assumes free: "lock_free E uid s" and rest: "orderly rest"
  shows "exits_released E uid s
           (try_catch_finally E name (locked_section (acquireWalletLock E uid why) rest) s)"
proof -
  let ?k = "''wallet_lock:'' @ js_toString uid"
  let ?s1 = "s\<lparr>trace := trace s @ [RedisSetNX ?k (uuid E)], locks := (locks s)(?k \<mapsto> uuid E)\<rparr>"
  let ?out = "try_catch_finally E name (locked_section (acquireWalletLock E uid why) rest) s"
  from rest obtain ev where r: "locks (snd (rest ?s1)) = locks ?s1"
      "trace (snd (rest ?s1)) = trace ?s1 @ ev"
    unfolding orderly_def by blast
  from locked_run(1) [where rest = rest and ev = ev and name = name and why = why, OF free r] obtain lg post where
    tr: "trace (snd ?out) = trace s @ RedisSetNX ?k (uuid E) # ev @ lg @ ReleaseCalled ?k (uuid E) # post"
    and post: "list_all is_release_step post"
    by blast
  have "new_events s (snd ?out) = (RedisSetNX ?k (uuid E) # ev @ lg) @ ReleaseCalled ?k (uuid E) # post"
    using tr by (simp add: new_events_append)
  then have "released_last ?k (uuid E) (new_events s (snd ?out))"
    using post by (simp only: released_lastI)
  moreover have "throws E Release_getClient = None \<and> throws E Release_eval = None \<longrightarrow>
        locks (snd ?out) ?k = None"
    using locked_run(3) [where rest = rest and ev = ev and name = name and why = why, OF free r] by blast
  ultimately show ?thesis by (simp add: exits_released_def)
qed

lemma mutation_exits:
  "lock_free E uid s \<Longrightarrow> 0 < amt \<Longrightarrow>
   exits_released E uid s (mutation E uid amt invalid why type passed meta kind okname failed s)"
  by (simp add: mutation_positive locked_exits orderly_mutation_locked)

text \<open>
  Claim C2. In an execution of \<open>deposit\<close>, \<open>withdraw\<close>, \<open>placeBet\<close>,
  \<open>processWinnings\<close>, \<open>cashout\<close> (with a positive amount) or \<open>createWallet\<close> in
  which the lock is taken, whatever the ledger, the cache and the socket do afterwards
  (\<open>E\<close> is arbitrary there), the execution ends with the release of that lock: the
  result, value or error, is returned after \<open>releaseWalletLock\<close> has run, and no
  ledger, cache or socket step comes after its entry.
\<close>

theorem lock_released_on_every_exit:
  "lock_free E uid s \<Longrightarrow>
     (0 < amt \<longrightarrow>
        exits_released E uid s (deposit E uid amt d pm c s)
      \<and> exits_released E uid s (withdraw E uid amt d s)
      \<and> exits_released E uid s (placeBet E uid amt g s)
      \<and> exits_released E uid s (processWinnings E uid amt g s)
      \<and> exits_released E uid s (cashout E uid amt g s))
   \<and> exits_released E uid s (createWallet E uid s)"
  by (simp add: deposit_mutation withdraw_mutation placeBet_mutation
        processWinnings_mutation cashout_mutation mutation_exits
        createWallet_def locked_exits orderly_createWallet_locked)

text \<open>
  The ledger is down: the deposit fails with the ledger's error, and the lock taken for
  it has been released.
\<close>

theorem lock_released_on_every_exit_witness:
  "lock_free E_ledger_down (JStr ''u1'') initial_world
   \<and> fst (deposit E_ledger_down (JStr ''u1'') 1000 ''d'' ''manual'' ''KSH'' initial_world)
       = Inl (Error ''ledger down'')
   \<and> exits_released E_ledger_down (JStr ''u1'') initial_world
        (deposit E_ledger_down (JStr ''u1'') 1000 ''d'' ''manual'' ''KSH'' initial_world)"
  using lock_released_on_every_exit
          [where E = E_ledger_down and uid = "JStr ''u1''" and s = initial_world
             and amt = 1000 and d = "''d''" and pm = "''manual''" and c = "''KSH''"]
  by (simp add: run_defs)

section \<open>The amount passed to the ledger\<close>

lemma mutation_ledger_calls:
  assumes pos: "0 < amt"
  shows "ledger_calls (new_events s
           (snd (mutation E uid amt invalid why type passed meta kind okname failed s)))
         = (if lock_free E uid s then [(uid, type, passed)] else [])"
    and "\<not> isl (fst (mutation E uid amt invalid why type passed meta kind okname failed s))
         \<longrightarrow> lock_free E uid s"
proof -
  let ?rest = "mutation_locked E uid amt type passed meta kind okname"
  let ?out = "mutation E uid amt invalid why type passed meta kind okname failed s"
  have m: "?out = try_catch_finally E failed (locked_section (acquireWalletLock E uid why) ?rest) s"
    using pos by (simp add: mutation_positive)
  let ?k = "''wallet_lock:'' @ js_toString uid"
  let ?s1 = "s\<lparr>trace := trace s @ [RedisSetNX ?k (uuid E)], locks := (locks s)(?k \<mapsto> uuid E)\<rparr>"
  show "ledger_calls (new_events s (snd ?out)) = (if lock_free E uid s then [(uid, type, passed)] else [])"
  proof (cases "lock_free E uid s")
    case True
    from mutation_locked_effect(1) [of E uid amt type passed meta kind okname ?s1]
    obtain ev where ev: "trace (snd (?rest ?s1)) = trace ?s1 @ LedgerCalled uid type passed # ev"
      "ledger_calls ev = []" by blast
    have lk: "locks (snd (?rest ?s1)) = locks ?s1" by (rule mutation_locked_effect(2))
    from locked_run(1) [where rest = ?rest and name = failed and why = why, OF True lk ev(1)] obtain lg post where
      tr: "trace (snd ?out) = trace s @ RedisSetNX ?k (uuid E) # (LedgerCalled uid type passed # ev)
             @ lg @ ReleaseCalled ?k (uuid E) # post"
      and post: "list_all is_release_step post"
      and lg: "case fst (?rest ?s1) of Inl e \<Rightarrow> lg = [Logged failed [message e]] | Inr x \<Rightarrow> lg = []"
      unfolding m by blast
    have "ledger_calls lg = []" using lg by (cases "fst (?rest ?s1)") simp_all
    moreover have "ledger_calls post = []" using post by (rule release_steps_no_ledger_call)
    ultimately show ?thesis using True tr ev(2)
      by (simp add: new_events_append ledger_calls_append)
  next
    case False
    from unlocked_run(5) [where rest = ?rest and name = failed and why = why, OF False] show ?thesis
      using False unfolding m by (auto simp add: new_events_append)
  qed
  show "\<not> isl (fst ?out) \<longrightarrow> lock_free E uid s"
    using unlocked_run(1) [where rest = ?rest and name = failed and why = why and E = E and uid = uid and s = s] unfolding m by blast
qed

text \<open>
  Claim C5, as the code has it. A successful operation with a positive amount \<open>a\<close>
  makes exactly one ledger call: \<open>placeBet\<close> passes \<open>- a\<close>, \<open>deposit\<close>,
  \<open>processWinnings\<close> and \<open>cashout\<close> pass \<open>a\<close> (all four through the repository's
  \<open>deposit\<close>), and \<open>withdraw\<close> passes \<open>a\<close> itself, unsigned, to \<open>recordTransaction\<close>
  under the type \<open>withdraw\<close>.
\<close>

theorem amount_passed_to_ledger:
  "0 < a \<Longrightarrow>
     (\<not> isl (fst (placeBet E uid a g s)) \<longrightarrow>
        ledger_calls (new_events s (snd (placeBet E uid a g s))) = [(uid, ''deposit'', - a)])
   \<and> (\<not> isl (fst (deposit E uid a d pm c s)) \<longrightarrow>
        ledger_calls (new_events s (snd (deposit E uid a d pm c s))) = [(uid, ''deposit'', a)])
   \<and> (\<not> isl (fst (processWinnings E uid a g s)) \<longrightarrow>
        ledger_calls (new_events s (snd (processWinnings E uid a g s))) = [(uid, ''deposit'', a)])
   \<and> (\<not> isl (fst (cashout E uid a g s)) \<longrightarrow>
        ledger_calls (new_events s (snd (cashout E uid a g s))) = [(uid, ''deposit'', a)])
   \<and> (\<not> isl (fst (withdraw E uid a d s)) \<longrightarrow>
        ledger_calls (new_events s (snd (withdraw E uid a d s))) = [(uid, ''withdraw'', a)])"
  using mutation_ledger_calls(2)
  by (simp add: deposit_mutation withdraw_mutation placeBet_mutation
        processWinnings_mutation cashout_mutation mutation_ledger_calls(1))

text \<open>A bet of 200: the ledger is called once, with \<open>- 200\<close>.\<close>

theorem amount_passed_to_ledger_witness:
  "(0::rat) < 200
   \<and> \<not> isl (fst (placeBet E0 (JStr ''u1'') 200 (JStr ''g1'') initial_world))
   \<and> ledger_calls (new_events initial_world
         (snd (placeBet E0 (JStr ''u1'') 200 (JStr ''g1'') initial_world)))
       = [(JStr ''u1'', ''deposit'', - 200)]"
  using amount_passed_to_ledger
          [where E = E0 and uid = "JStr ''u1''" and s = initial_world
             and a = 200 and g = "JStr ''g1''"]
  by (simp add: run_defs)

text \<open>
  The claim has \<open>withdraw\<close> pass \<open>- a\<close>. A successful withdrawal of 100 passes 100.
\<close>

theorem withdraw_amount_counterexample:
  "\<not> isl (fst (withdraw E0 (JStr ''u1'') 100 ''w'' initial_world))
   \<and> ledger_calls (new_events initial_world (snd (withdraw E0 (JStr ''u1'') 100 ''w'' initial_world)))
       = [(JStr ''u1'', ''withdraw'', 100)]
   \<and> ledger_calls (new_events initial_world (snd (withdraw E0 (JStr ''u1'') 100 ''w'' initial_world)))
       \<noteq> [(JStr ''u1'', ''withdraw'', - 100)]"
  by (simp add: run_defs)

section \<open>Failure of the cache write\<close>

lemma mutation_cache_failure:
  assumes pos: "0 < amt" and free: "lock_free E uid s"
    and led: "throws E Ledger_call = None"
       "ledger_record E (ledger s) uid type passed meta = Inr (res, led)"
    and cf: "cache_write_fails E m"
  shows "cache_failure_propagated E m failed led s
           (mutation E uid amt invalid why type passed meta kind okname failed s)"
proof -
  let ?rest = "mutation_locked E uid amt type passed meta kind okname"
  let ?out = "mutation E uid amt invalid why type passed meta kind okname failed s"
  have m: "?out = try_catch_finally E failed (locked_section (acquireWalletLock E uid why) ?rest) s"
    using pos by (simp add: mutation_positive)
  let ?k = "''wallet_lock:'' @ js_toString uid"
  let ?s1 = "s\<lparr>trace := trace s @ [RedisSetNX ?k (uuid E)], locks := (locks s)(?k \<mapsto> uuid E)\<rparr>"
  have r: "fst (?rest ?s1) = Inl (Error m)" "ledger (snd (?rest ?s1)) = led"
    using led cf
    by (auto simp add: mutation_locked_def recordTransaction_result updateBalanceCache_def
          cache_set_def cache_write_fails_def io_defs)
  from mutation_locked_effect(1) [of E uid amt type passed meta kind okname ?s1]
  obtain ev where ev: "trace (snd (?rest ?s1)) = trace ?s1 @ LedgerCalled uid type passed # ev"
    by blast
  have lk: "locks (snd (?rest ?s1)) = locks ?s1" by (rule mutation_locked_effect(2))
  note run = locked_run [where rest = ?rest and name = failed and why = why, OF free lk ev]
  from run(1) obtain lg post where
    tr: "trace (snd ?out) = trace s @ RedisSetNX ?k (uuid E) # (LedgerCalled uid type passed # ev)
           @ lg @ ReleaseCalled ?k (uuid E) # post"
    and lg: "case fst (?rest ?s1) of Inl e \<Rightarrow> lg = [Logged failed [message e]] | Inr x \<Rightarrow> lg = []"
    unfolding m by blast
  have "lg = [Logged failed [m]]" using lg r by simp
  then have logged: "Logged failed [m] \<in> set (new_events s (snd ?out))"
    using tr by (simp add: new_events_append)
  have "isl (fst ?out)" using run(4) r unfolding m by simp
  moreover have "throws E Release_getClient = None \<and> throws E Release_eval = None \<longrightarrow>
        fst ?out = Inl (Error m)"
    using run(3) r unfolding m by simp
  moreover have "ledger (snd ?out) = led" using run(2) r unfolding m by simp
  ultimately show ?thesis using logged by (simp add: cache_failure_propagated_def)
qed

text \<open>
  Claim C6, as the code has it. The cache write is inside the \<open>try\<close> block of the
  operation, so when it throws after the ledger write has succeeded, the \<open>catch\<close>
  logs the failure under the operation's failure event and rethrows: the operation
  fails (with the error of the cache write when the release goes through), and the
  ledger keeps what the ledger write committed.
\<close>

theorem cache_failure_is_propagated:
  "0 < a \<Longrightarrow> lock_free E uid s \<Longrightarrow> throws E Ledger_call = None \<Longrightarrow> cache_write_fails E m \<Longrightarrow>
     (case ledger_record E (ledger s) uid ''deposit'' a [d, pm, c] of
        Inl e \<Rightarrow> True
      | Inr (res, led) \<Rightarrow>
          cache_failure_propagated E m ''WALLET_DEPOSIT_FAILED'' led s (deposit E uid a d pm c s))
   \<and> (case ledger_record E (ledger s) uid ''withdraw'' a [d] of
        Inl e \<Rightarrow> True
      | Inr (res, led) \<Rightarrow>
          cache_failure_propagated E m ''WALLET_WITHDRAWAL_FAILED'' led s (withdraw E uid a d s))
   \<and> (case ledger_record E (ledger s) uid ''deposit'' (- a)
               [''Bet Placement for Game '' @ js_toString g, ''game_bet'', ''KSH''] of
        Inl e \<Rightarrow> True
      | Inr (res, led) \<Rightarrow>
          cache_failure_propagated E m ''WALLET_BET_PLACEMENT_FAILED'' led s (placeBet E uid a g s))
   \<and> (case ledger_record E (ledger s) uid ''deposit'' a
               [''Game Winnings for Game '' @ js_toString g, ''game_win'', ''KSH''] of
        Inl e \<Rightarrow> True
      | Inr (res, led) \<Rightarrow>
          cache_failure_propagated E m ''WALLET_WINNINGS_PROCESSING_FAILED'' led s
            (processWinnings E uid a g s))
   \<and> (case ledger_record E (ledger s) uid ''deposit'' a
               [''Game Cashout for Game '' @ js_toString g, ''game_cashout'', ''KSH''] of
        Inl e \<Rightarrow> True
      | Inr (res, led) \<Rightarrow>
          cache_failure_propagated E m ''WALLET_CASHOUT_FAILED'' led s (cashout E uid a g s))"
  by (simp add: deposit_mutation withdraw_mutation placeBet_mutation
        processWinnings_mutation cashout_mutation mutation_cache_failure
        split: sum.splits prod.splits)

text \<open>
  A bet of 200 with the cache down: the ledger write is committed and the bet fails
  with the error of the cache.
\<close>

theorem cache_failure_is_propagated_witness:
  "(0::rat) < 200 \<and> lock_free E_cache_down (JStr ''u1'') initial_world
   \<and> throws E_cache_down Ledger_call = None \<and> cache_write_fails E_cache_down ''cache down''
   \<and> (\<exists>res led.
         ledger_record E_cache_down (ledger initial_world) (JStr ''u1'') ''deposit'' (- 200)
           [''Bet Placement for Game g1'', ''game_bet'', ''KSH''] = Inr (res, led)
       \<and> cache_failure_propagated E_cache_down ''cache down'' ''WALLET_BET_PLACEMENT_FAILED'' led
           initial_world (placeBet E_cache_down (JStr ''u1'') 200 (JStr ''g1'') initial_world))"
  using cache_failure_is_propagated
          [where E = E_cache_down and uid = "JStr ''u1''" and s = initial_world
             and a = 200 and g = "JStr ''g1''" and m = "''cache down''"
             and d = "''d''" and pm = "''manual''" and c = "''KSH''"]
  by (simp add: run_defs cache_write_fails_def)

text \<open>
  The claim has the operation return the successful result. A deposit of 1000 with the
  cache down returns the error of the cache write, while the ledger holds the deposit.
\<close>

theorem cache_failure_counterexample:
  "fst (deposit E_cache_down (JStr ''u1'') 1000 ''d'' ''manual'' ''KSH'' initial_world)
     = Inl (Error ''cache down'')
   \<and> map amount (transactions (ledger (snd
        (deposit E_cache_down (JStr ''u1'') 1000 ''d'' ''manual'' ''KSH'' initial_world)))) = [1000]
   \<and> map balance (wallets (ledger (snd
        (deposit E_cache_down (JStr ''u1'') 1000 ''d'' ''manual'' ''KSH'' initial_world)))) = [1000]"
  by (simp add: run_defs)

section \<open>The ledger invariant\<close>

lemma walletId_setBalance: "map walletId (setBalance wid b ws) = map walletId ws"
  by (induction ws) (simp_all add: setBalance_def)

lemma distinct_walletId_eq:
  "distinct (map walletId ws) \<Longrightarrow> x \<in> set ws \<Longrightarrow> y \<in> set ws \<Longrightarrow> walletId x = walletId y \<Longrightarrow> x = y"
  by (meson distinct_map inj_onD)

lemma set_setBalance:
  "w' \<in> set (setBalance wid b ws) \<Longrightarrow>
   \<exists>w0 \<in> set ws. w' = (if walletId w0 = wid then w0\<lparr>balance := b\<rparr> else w0)"
  by (auto simp add: setBalance_def)

lemma locate_consistent:
  assumes con: "ledger_consistent led"
    and loc: "locateOrCreate E led uid = Inr (w, ws)"
  shows "ledger_consistent (led\<lparr>wallets := ws\<rparr>)" and "w \<in> set ws"
proof -
  have both: "ledger_consistent (led\<lparr>wallets := ws\<rparr>) \<and> w \<in> set ws"
  proof (cases "findWallet led uid")
    case (Some w0)
    then have "w0 \<in> set (wallets led)"
      by (auto simp add: findWallet_def find_Some_iff)
    moreover have "w = w0" "ws = wallets led"
      using loc Some by (simp_all add: locateOrCreate_def)
    ultimately show ?thesis using con by simp
  next
    case None
    let ?w0 = "\<lparr>walletId = newWalletId E, userId = uid, balance = 0, currency = ''KSH''\<rparr>"
    have fresh: "newWalletId E \<notin> set (map walletId (wallets led))"
      using loc None by (auto simp add: locateOrCreate_def split: if_splits)
    have w: "w = ?w0" "ws = wallets led @ [?w0]"
      using loc None fresh by (auto simp add: locateOrCreate_def Let_def)
    have norows: "walletTransactions led (newWalletId E) = []"
    proof -
      have "\<forall>t \<in> set (transactions led). tx_walletId t \<noteq> newWalletId E"
        using con fresh unfolding ledger_consistent_def by metis
      then show ?thesis by (simp add: walletTransactions_def filter_empty_conv)
    qed
    have "ledger_consistent (led\<lparr>wallets := wallets led @ [?w0]\<rparr>)"
      using con fresh norows
      by (auto simp add: ledger_consistent_def calculatedFromHistory_def walletTransactions_def)
    then show ?thesis using w by simp
  qed
  from both show "ledger_consistent (led\<lparr>wallets := ws\<rparr>)" and "w \<in> set ws" by simp_all
qed

lemma record_row_consistent:
  assumes con: "ledger_consistent L" and w: "w \<in> set (wallets L)"
    and row: "tx_walletId row = walletId w" "amount row = amt" "balanceAfter row = balance w + amt"
  shows "ledger_consistent \<lparr>wallets = setBalance (walletId w) (balance w + amt) (wallets L),
                            transactions = row # transactions L\<rparr>"
proof -
  let ?L' = "\<lparr>wallets = setBalance (walletId w) (balance w + amt) (wallets L),
             transactions = row # transactions L\<rparr>"
  have dist: "distinct (map walletId (wallets L))"
    and refs: "\<forall>t \<in> set (transactions L). tx_walletId t \<in> set (map walletId (wallets L))"
    and bal: "\<And>x. x \<in> set (wallets L) \<Longrightarrow>
                balance x = calculatedFromHistory L (walletId x) \<and>
                (case walletTransactions L (walletId x) of [] \<Rightarrow> True
                 | t # _ \<Rightarrow> balanceAfter t = balance x)"
    using con by (auto simp add: ledger_consistent_def)
  have d': "distinct (map walletId (wallets ?L'))"
    using dist by (simp add: walletId_setBalance)
  have r': "\<forall>t \<in> set (transactions ?L'). tx_walletId t \<in> set (map walletId (wallets ?L'))"
    using refs w row(1) by (auto simp add: walletId_setBalance)
  have b': "\<forall>x \<in> set (wallets ?L').
        balance x = calculatedFromHistory ?L' (walletId x) \<and>
        (case walletTransactions ?L' (walletId x) of [] \<Rightarrow> True
         | t # _ \<Rightarrow> balanceAfter t = balance x)"
  proof
    fix x assume "x \<in> set (wallets ?L')"
    then obtain w0 where w0: "w0 \<in> set (wallets L)"
      "x = (if walletId w0 = walletId w then w0\<lparr>balance := balance w + amt\<rparr> else w0)"
      using set_setBalance by fastforce
    show "balance x = calculatedFromHistory ?L' (walletId x) \<and>
        (case walletTransactions ?L' (walletId x) of [] \<Rightarrow> True
         | t # _ \<Rightarrow> balanceAfter t = balance x)"
    proof (cases "walletId w0 = walletId w")
      case True
      then have "w0 = w" by (rule distinct_walletId_eq [OF dist w0(1) w])
      then have x: "x = w\<lparr>balance := balance w + amt\<rparr>" using w0(2) by simp
      show ?thesis using bal [OF w] row unfolding x
        by (simp add: calculatedFromHistory_def walletTransactions_def)
    next
      case False
      then have x: "x = w0" using w0(2) by simp
      show ?thesis using bal [OF w0(1)] row False unfolding x
        by (simp add: calculatedFromHistory_def walletTransactions_def)
    qed
  qed
  show ?thesis unfolding ledger_consistent_def using d' r' b' by blast
qed

lemma ledger_record_consistent:
  assumes con: "ledger_consistent led"
    and rec: "ledger_record E led uid type amt meta = Inr (res, led')"
  shows "ledger_consistent led'"
proof -
  from rec obtain w ws where loc: "locateOrCreate E led uid = Inr (w, ws)"
    by (auto simp add: ledger_record_def split: sum.splits)
  let ?row = "\<lparr>transactionId = newTransactionId E, tx_walletId = walletId w,
               tx_type = type, amount = amt, balanceAfter = balance w + amt,
               createdAt = clock E, metadata = meta\<rparr>"
  have led': "led' = \<lparr>wallets = setBalance (walletId w) (balance w + amt) ws,
                     transactions = ?row # transactions led\<rparr>"
    using rec loc by (simp add: ledger_record_def Let_def)
  let ?L = "led\<lparr>wallets := ws\<rparr>"
  have "ledger_consistent ?L" "w \<in> set (wallets ?L)"
    using locate_consistent [OF con loc] by simp_all
  from record_row_consistent [OF this, of ?row amt]
  show ?thesis by (simp add: led')
qed

lemma mutation_ledger:
  fixes E uid amt invalid why type passed meta kind okname failed s
  defines "out \<equiv> mutation E uid amt invalid why type passed meta kind okname failed s"
  shows "ledger (snd out) = ledger s \<or>
         (\<exists>res. ledger_record E (ledger s) uid type passed meta = Inr (res, ledger (snd out)))"
proof (cases "0 < amt")
  case False
  then show ?thesis by (simp add: out_def mutation_invalid)
next
  case True
  let ?rest = "mutation_locked E uid amt type passed meta kind okname"
  have m: "out = try_catch_finally E failed (locked_section (acquireWalletLock E uid why) ?rest) s"
    using True by (simp add: out_def mutation_positive)
  show ?thesis
  proof (cases "lock_free E uid s")
    case False
    then show ?thesis
      using unlocked_run(2) [where rest = ?rest and name = failed and why = why and E = E
              and uid = uid and s = s]
      unfolding m by simp
  next
    case free: True
    let ?k = "''wallet_lock:'' @ js_toString uid"
    let ?s1 = "s\<lparr>trace := trace s @ [RedisSetNX ?k (uuid E)], locks := (locks s)(?k \<mapsto> uuid E)\<rparr>"
    from mutation_locked_effect(1) [of E uid amt type passed meta kind okname ?s1]
    obtain ev where ev: "trace (snd (?rest ?s1)) = trace ?s1 @ LedgerCalled uid type passed # ev"
      by blast
    have lk: "locks (snd (?rest ?s1)) = locks ?s1" by (rule mutation_locked_effect(2))
    have "ledger (snd out) = ledger (snd (?rest ?s1))"
      using locked_run(2) [where rest = ?rest and name = failed and why = why, OF free lk ev]
      unfolding m .
    then show ?thesis
      using mutation_locked_effect(3) [of E uid amt type passed meta kind okname ?s1] by simp
  qed
qed

lemma perform_consistent:
  assumes "ledger_consistent (ledger s)"
  shows "ledger_consistent (ledger (snd (perform E c s)))"
proof -
  have "\<And>amt invalid why type passed meta kind okname failed uid.
          ledger_consistent (ledger (snd
            (mutation E uid amt invalid why type passed meta kind okname failed s)))"
    subgoal for amt invalid why type passed meta kind okname failed uid
      using mutation_ledger [of E uid amt invalid why type passed meta kind okname failed s]
            ledger_record_consistent [OF assms] assms
      by auto
    done
  then show ?thesis
    by (cases c) (simp_all add: deposit_mutation withdraw_mutation placeBet_mutation
                     processWinnings_mutation cashout_mutation)
qed

lemma run_consistent:
  "ledger_consistent (ledger s) \<Longrightarrow> ledger_consistent (ledger (run calls s))"
proof (induction calls arbitrary: s)
  case Nil
  then show ?case by simp
next
  case (Cons x calls)
  obtain E c where x: "x = (E, c)" by (cases x)
  show ?case using Cons.IH [OF perform_consistent [OF Cons.prems, of E c]] by (simp add: x)
qed

lemma run_ok_run: "run_ok calls s = Some s' \<Longrightarrow> s' = run calls s"
proof (induction calls arbitrary: s)
  case Nil
  then show ?case by simp
next
  case (Cons x calls)
  obtain E c where x: "x = (E, c)" by (cases x)
  obtain r s1 where p: "perform E c s = (r, s1)" by (cases "perform E c s")
  show ?case using Cons.prems Cons.IH [of s1] by (cases r) (simp_all add: x p)
qed

lemma createWallet_locked_ledger:
  "ledger (snd (createWallet_locked E uid s)) = ledger s \<or>
   (\<exists>w ws. locateOrCreate E (ledger s) uid = Inr (w, ws) \<and>
            ledger (snd (createWallet_locked E uid s)) = (ledger s)\<lparr>wallets := ws\<rparr>)"
  by (auto simp add: createWallet_locked_def WalletRepository_createWallet_def
        updateBalanceCache_def cache_set_def io_defs
        split: option.splits sum.splits prod.splits)

lemma createWallet_consistent:
  assumes con: "ledger_consistent (ledger s)"
  shows "ledger_consistent (ledger (snd (createWallet E uid s)))"
proof (cases "lock_free E uid s")
  case False
  then show ?thesis
    using unlocked_run(2) [where rest = "createWallet_locked E uid"
            and name = "''Wallet creation failed''" and why = "''wallet_creation''"
            and E = E and uid = uid and s = s] con
    by (simp add: createWallet_def)
next
  case free: True
  let ?rest = "createWallet_locked E uid"
  let ?k = "''wallet_lock:'' @ js_toString uid"
  let ?s1 = "s\<lparr>trace := trace s @ [RedisSetNX ?k (uuid E)], locks := (locks s)(?k \<mapsto> uuid E)\<rparr>"
  from orderly_createWallet_locked [of E uid] obtain ev where
    lk: "locks (snd (?rest ?s1)) = locks ?s1" and ev: "trace (snd (?rest ?s1)) = trace ?s1 @ ev"
    unfolding orderly_def by blast
  have out: "ledger (snd (createWallet E uid s)) = ledger (snd (?rest ?s1))"
    using locked_run(2) [where rest = ?rest and name = "''Wallet creation failed''"
            and why = "''wallet_creation''", OF free lk ev]
    by (simp add: createWallet_def)
  from createWallet_locked_ledger [of E uid ?s1]
  show ?thesis
  proof
    assume "ledger (snd (?rest ?s1)) = ledger ?s1"
    then show ?thesis using con out by simp
  next
    assume "\<exists>w ws. locateOrCreate E (ledger ?s1) uid = Inr (w, ws) \<and>
            ledger (snd (?rest ?s1)) = (ledger ?s1)\<lparr>wallets := ws\<rparr>"
    then obtain w ws where "locateOrCreate E (ledger s) uid = Inr (w, ws)"
      "ledger (snd (?rest ?s1)) = (ledger s)\<lparr>wallets := ws\<rparr>" by auto
    then show ?thesis using locate_consistent(1) [OF con] out by simp
  qed
qed

text \<open>
  Claim C1. The ledger of a new system is consistent, creating a wallet keeps it
  consistent, and after any run of \<open>deposit\<close>, \<open>withdraw\<close>, \<open>placeBet\<close>,
  \<open>processWinnings\<close> and \<open>cashout\<close> calls from a consistent ledger (a run in which all
  calls succeed is one of them) the stored balance of every wallet is the sum of the
  amounts of the rows recorded for it, and the \<open>balanceAfter\<close> of its newest row.
\<close>

theorem balance_is_sum_of_recorded_amounts:
  "ledger_consistent (ledger initial_world)
   \<and> (ledger_consistent (ledger start) \<longrightarrow>
        ledger_consistent (ledger (snd (createWallet E uid start)))
      \<and> (\<forall>s. run_ok calls start = Some s \<longrightarrow> s = run calls start)
      \<and> (\<forall>w \<in> set (wallets (ledger (run calls start))).
           balance w =
             sum_list (map amount (walletTransactions (ledger (run calls start)) (walletId w)))
         \<and> (case walletTransactions (ledger (run calls start)) (walletId w) of
              [] \<Rightarrow> True
            | t # _ \<Rightarrow> balanceAfter t = balance w)))"
proof -
  have init: "ledger_consistent (ledger initial_world)"
    by (simp add: ledger_consistent_def initial_world_def)
  have step: "ledger_consistent (ledger start) \<longrightarrow>
      (\<forall>w \<in> set (wallets (ledger (run calls start))).
           balance w =
             sum_list (map amount (walletTransactions (ledger (run calls start)) (walletId w)))
         \<and> (case walletTransactions (ledger (run calls start)) (walletId w) of
              [] \<Rightarrow> True
            | t # _ \<Rightarrow> balanceAfter t = balance w))"
  proof
    assume "ledger_consistent (ledger start)"
    then have "ledger_consistent (ledger (run calls start))" by (rule run_consistent)
    then show "\<forall>w \<in> set (wallets (ledger (run calls start))).
           balance w =
             sum_list (map amount (walletTransactions (ledger (run calls start)) (walletId w)))
         \<and> (case walletTransactions (ledger (run calls start)) (walletId w) of
              [] \<Rightarrow> True
            | t # _ \<Rightarrow> balanceAfter t = balance w)"
      by (simp add: ledger_consistent_def calculatedFromHistory_def)
  qed
  show ?thesis using init step createWallet_consistent run_ok_run by blast
qed

text \<open>
  The scenario of the spec: all four calls succeed, the rows carry the amounts 1000,
  - 200, 500 and 1300 and the running totals 1000, 800, 1300 and 2600, and the stored
  balance is 2600, the sum of the amounts.
\<close>

theorem balance_is_sum_of_recorded_amounts_witness:
  "map_option (\<lambda>s. map balance (wallets (ledger s))) (run_ok scenario created) = Some [2600]
   \<and> map amount (transactions (ledger (run scenario created))) = [1300, 500, - 200, 1000]
   \<and> map balanceAfter (transactions (ledger (run scenario created))) = [2600, 1300, 800, 1000]
   \<and> map (\<lambda>w. sum_list (map amount
              (walletTransactions (ledger (run scenario created)) (walletId w))))
         (wallets (ledger (run scenario created))) = [2600]"
proof -
  have c: "ledger_consistent (ledger created)"
    by code_simp
  have b: "map_option (\<lambda>s. map balance (wallets (ledger s))) (run_ok scenario created) = Some [2600]"
    by code_simp
  have a: "map amount (transactions (ledger (run scenario created))) = [1300, 500, - 200, 1000]"
    by code_simp
  have t: "map balanceAfter (transactions (ledger (run scenario created))) = [2600, 1300, 800, 1000]"
    by code_simp
  from b obtain s where s: "run_ok scenario created = Some s"
    "map balance (wallets (ledger s)) = [2600]" by auto
  have inv: "\<forall>w \<in> set (wallets (ledger (run scenario created))).
         balance w =
           sum_list (map amount (walletTransactions (ledger (run scenario created)) (walletId w)))"
    and same: "s = run scenario created"
    using balance_is_sum_of_recorded_amounts
            [where start = created and calls = scenario and E = E0 and uid = "JStr ''u1''"]
          c s(1)
    by simp_all
  have eq: "map (\<lambda>w. sum_list (map amount
              (walletTransactions (ledger (run scenario created)) (walletId w))))
         (wallets (ledger (run scenario created)))
        = map balance (wallets (ledger (run scenario created)))"
    using inv by simp
  have bal: "map balance (wallets (ledger (run scenario created))) = [2600]"
    using s(2) same by simp
  have sums: "map (\<lambda>w. sum_list (map amount
              (walletTransactions (ledger (run scenario created)) (walletId w))))
         (wallets (ledger (run scenario created))) = [2600]"
    by (simp only: eq bal)
  show ?thesis using b a t sums by blast
qed

section \<open>Reconciliation on the balance read\<close>

lemma release_steps_no_reconcile_step:
  "list_all is_release_step evs \<Longrightarrow> \<not> list_ex is_reconcile_step evs"
  by (induction evs rule: ledger_calls.induct) simp_all

lemma find_map_balance:
  "find (\<lambda>w. userId w = uid) (map (\<lambda>w. if walletId w = wid then w\<lparr>balance := b\<rparr> else w) ws)
   = map_option (\<lambda>w. if walletId w = wid then w\<lparr>balance := b\<rparr> else w)
       (find (\<lambda>w. userId w = uid) ws)"
  by (induction ws) simp_all

lemma findWallet_setBalance:
  "findWallet led uid = Some w \<Longrightarrow>
   findWallet (led\<lparr>wallets := setBalance (walletId w) b (wallets led)\<rparr>) uid
     = Some (w\<lparr>balance := b\<rparr>)"
  by (simp add: findWallet_def setBalance_def find_map_balance)

lemma reconcile_locked_effect:
  fixes E uid s
  defines "out \<equiv> reconcile_locked E uid s"
  shows "\<exists>ev. trace (snd out) = trace s @ HistoryRead uid # ev \<and> list_all is_reconcile_step ev"
    and "locks (snd out) = locks s"
    and "\<forall>bv. fst out = Inr bv \<longrightarrow>
           (\<exists>w. findWallet (ledger (snd out)) uid = Some w \<and>
                balance w = calculatedFromHistory (ledger (snd out)) (walletId w) \<and>
                calculatedBalance bv = balance w)"
proof -
  let ?s1 = "s\<lparr>trace := trace s @ [HistoryRead uid]\<rparr>"
  show "\<exists>ev. trace (snd out) = trace s @ HistoryRead uid # ev \<and> list_all is_reconcile_step ev"
    and "locks (snd out) = locks s"
    unfolding out_def
    by (auto simp add: reconcile_locked_def io_defs Let_def split: option.splits)
  show "\<forall>bv. fst out = Inr bv \<longrightarrow>
           (\<exists>w. findWallet (ledger (snd out)) uid = Some w \<and>
                balance w = calculatedFromHistory (ledger (snd out)) (walletId w) \<and>
                calculatedBalance bv = balance w)"
  proof (cases "throws E Ledger_call")
    case (Some m)
    then show ?thesis unfolding out_def by (simp add: reconcile_locked_def io_defs)
  next
    case None
    show ?thesis
    proof (cases "findWallet (ledger s) uid")
      case noWallet: None
      then show ?thesis using None unfolding out_def
        by (simp add: reconcile_locked_def io_defs)
    next
      case (Some w)
      let ?calc = "calculatedFromHistory (ledger s) (walletId w)"
      show ?thesis
      proof (cases "?calc = balance w")
        case True
        then show ?thesis using None Some unfolding out_def
          by (simp add: reconcile_locked_def io_defs Let_def)
      next
        case False
        let ?led = "(ledger s)\<lparr>wallets := setBalance (walletId w) ?calc (wallets (ledger s))\<rparr>"
        have o: "fst out = Inr \<lparr>v_walletId = walletId w, currentBalance = balance w,
                    calculatedBalance = ?calc, corrected = True,
                    difference = ?calc - balance w,
                    reason = Some ''stored balance differs from transaction history''\<rparr>"
          "ledger (snd out) = ?led"
          using None Some False unfolding out_def
          by (simp_all add: reconcile_locked_def io_defs Let_def)
        have f: "findWallet ?led uid = Some (w\<lparr>balance := ?calc\<rparr>)"
          using Some by (rule findWallet_setBalance)
        have c: "calculatedFromHistory ?led (walletId w) = ?calc"
          by (simp add: calculatedFromHistory_def walletTransactions_def)
        show ?thesis using f c by (auto simp add: o)
      qed
    qed
  qed
qed

lemma orderly_reconcile_locked: "orderly (reconcile_locked E uid)"
  unfolding orderly_def
  using reconcile_locked_effect(1,2) [of E uid] by blast

lemma acquire_fail_steps:
  assumes "\<not> lock_free E uid s"
  shows "\<exists>ev. trace (snd (acquireWalletLock E uid r s)) = trace s @ ev
              \<and> \<not> list_ex is_reconcile_step ev"
  using assms
  by (auto simp add: acquire_result lock_free_def Let_def split: option.splits)

lemma verify_unlocked:
  assumes nfree: "\<not> lock_free E uid s"
  shows "isl (fst (verifyAndSyncBalance E uid s))"
    and "ledger (snd (verifyAndSyncBalance E uid s)) = ledger s"
    and "\<exists>ev. trace (snd (verifyAndSyncBalance E uid s)) = trace s @ VerifyCalled uid # ev
              \<and> \<not> list_ex is_reconcile_step ev"
proof -
  let ?sv = "s\<lparr>trace := trace s @ [VerifyCalled uid]\<rparr>"
  let ?acq = "acquireWalletLock E uid ''balance_reconciliation''"
  have nf: "\<not> lock_free E uid ?sv" using nfree by (simp add: lock_free_def)
  obtain e s1 where acq: "?acq ?sv = (Inl e, s1)"
    using acquire_fail(1) [OF nf, of "''balance_reconciliation''"]
    by (cases "?acq ?sv") auto
  have s1: "ledger s1 = ledger s"
    using acquire_fail(3) [OF nf, of "''balance_reconciliation''"] acq by simp
  obtain ev where ev: "trace s1 = trace ?sv @ ev" "\<not> list_ex is_reconcile_step ev"
    using acquire_fail_steps [OF nf, of "''balance_reconciliation''"] acq by auto
  have out: "verifyAndSyncBalance E uid s = (Inl e, s1)"
    using acq
    by (simp add: verifyAndSyncBalance_def bind_def emit_def locked_section_def
          finally_release_def)
  show "isl (fst (verifyAndSyncBalance E uid s))"
    and "ledger (snd (verifyAndSyncBalance E uid s)) = ledger s"
    and "\<exists>ev. trace (snd (verifyAndSyncBalance E uid s)) = trace s @ VerifyCalled uid # ev
              \<and> \<not> list_ex is_reconcile_step ev"
    using s1 ev by (simp_all add: out)
qed

lemma verify_locked:
  assumes free: "lock_free E uid s"
  defines "k \<equiv> ''wallet_lock:'' @ js_toString uid"
  shows "\<exists>mid post. trace (snd (verifyAndSyncBalance E uid s)) =
           trace s @ VerifyCalled uid # RedisSetNX k (uuid E) # HistoryRead uid # mid
             @ ReleaseCalled k (uuid E) # post
           \<and> list_all is_reconcile_step mid \<and> list_all is_release_step post"
    and "\<forall>bv. fst (verifyAndSyncBalance E uid s) = Inr bv \<longrightarrow>
           (\<exists>w. findWallet (ledger (snd (verifyAndSyncBalance E uid s))) uid = Some w \<and>
                balance w = calculatedFromHistory (ledger (snd (verifyAndSyncBalance E uid s)))
                              (walletId w) \<and>
                calculatedBalance bv = balance w)"
proof -
  let ?sv = "s\<lparr>trace := trace s @ [VerifyCalled uid]\<rparr>"
  let ?l = "\<lparr>lockKey = k, lockValue = uuid E\<rparr>"
  let ?s1 = "?sv\<lparr>trace := trace ?sv @ [RedisSetNX k (uuid E)],
                  locks := (locks ?sv)(k \<mapsto> uuid E)\<rparr>"
  have f: "lock_free E uid ?sv" using free by (simp add: lock_free_def)
  have acq: "acquireWalletLock E uid ''balance_reconciliation'' ?sv = (Inr ?l, ?s1)"
    unfolding k_def using f by (rule acquire_ok)
  obtain r s2 where rs: "reconcile_locked E uid ?s1 = (r, s2)"
    by (cases "reconcile_locked E uid ?s1")
  from reconcile_locked_effect(1) [of E uid ?s1] obtain mid where
    mid: "trace s2 = trace ?s1 @ HistoryRead uid # mid" "list_all is_reconcile_step mid"
    using rs by auto
  have res: "\<forall>bv. r = Inr bv \<longrightarrow>
           (\<exists>w. findWallet (ledger s2) uid = Some w \<and>
                balance w = calculatedFromHistory (ledger s2) (walletId w) \<and>
                calculatedBalance bv = balance w)"
    using reconcile_locked_effect(3) [of E uid ?s1] rs by simp
  have out: "verifyAndSyncBalance E uid s = finally_release E (Some ?l) (r, s2)"
    using acq rs
    by (simp add: verifyAndSyncBalance_def bind_def emit_def locked_section_def)
  from finally_release_effect(1) [of E ?l r s2] obtain post where
    post: "trace (snd (verifyAndSyncBalance E uid s)) = trace s2 @ ReleaseCalled k (uuid E) # post"
      "list_all is_release_step post"
    unfolding out by auto
  have "trace (snd (verifyAndSyncBalance E uid s)) =
      trace s @ VerifyCalled uid # RedisSetNX k (uuid E) # HistoryRead uid # mid
        @ ReleaseCalled k (uuid E) # post"
    using post(1) mid(1) by simp
  then show "\<exists>mid post. trace (snd (verifyAndSyncBalance E uid s)) =
           trace s @ VerifyCalled uid # RedisSetNX k (uuid E) # HistoryRead uid # mid
             @ ReleaseCalled k (uuid E) # post
           \<and> list_all is_reconcile_step mid \<and> list_all is_release_step post"
    using mid(2) post(2) by blast
  have led: "ledger (snd (verifyAndSyncBalance E uid s)) = ledger s2"
    unfolding out using finally_release_effect(2) [of E ?l r s2] by simp
  have fr: "fst (verifyAndSyncBalance E uid s) = r \<or> isl (fst (verifyAndSyncBalance E uid s))"
    unfolding out using finally_release_effect(5) [of E ?l r s2] by auto
  show "\<forall>bv. fst (verifyAndSyncBalance E uid s) = Inr bv \<longrightarrow>
           (\<exists>w. findWallet (ledger (snd (verifyAndSyncBalance E uid s))) uid = Some w \<and>
                balance w = calculatedFromHistory (ledger (snd (verifyAndSyncBalance E uid s)))
                              (walletId w) \<and>
                calculatedBalance bv = balance w)"
    using res fr unfolding led by auto
qed

lemma profile_after_verify:
  fixes s
  assumes ok: "truthy uid" "throws E Cache_getClient = None"
  defines "sa \<equiv> s\<lparr>trace := trace s @ [Logged ''BALANCE_RETRIEVAL_ATTEMPT'' []]\<rparr>"
  defines "out \<equiv> getUserProfileBalance E uid s"
  shows "isl (fst (verifyAndSyncBalance E uid sa)) \<longrightarrow> isl (fst out)"
    and "ledger (snd out) = ledger (snd (verifyAndSyncBalance E uid sa))"
    and "\<exists>ev. trace (snd out) = trace (snd (verifyAndSyncBalance E uid sa)) @ ev
              \<and> \<not> list_ex is_reconcile_step ev"
    and "\<forall>resp. fst out = Inr resp \<longrightarrow>
           (\<exists>bv. fst (verifyAndSyncBalance E uid sa) = Inr bv \<and>
                 b_balance resp = calculatedBalance bv)"
proof -
  obtain r sb where v: "verifyAndSyncBalance E uid sa = (r, sb)"
    by (cases "verifyAndSyncBalance E uid sa")
  have all: "(isl r \<longrightarrow> isl (fst out)) \<and> ledger (snd out) = ledger sb
             \<and> (\<exists>ev. trace (snd out) = trace sb @ ev \<and> \<not> list_ex is_reconcile_step ev)
             \<and> (\<forall>resp. fst out = Inr resp \<longrightarrow>
                   (\<exists>bv. r = Inr bv \<and> b_balance resp = calculatedBalance bv))"
    using ok v unfolding out_def sa_def
    by (cases r; cases "throws E Cache_set")
       (auto simp add: getUserProfileBalance_def io_defs cache_set_def Let_def)
  then show "isl (fst (verifyAndSyncBalance E uid sa)) \<longrightarrow> isl (fst out)"
    and "ledger (snd out) = ledger (snd (verifyAndSyncBalance E uid sa))"
    and "\<exists>ev. trace (snd out) = trace (snd (verifyAndSyncBalance E uid sa)) @ ev
              \<and> \<not> list_ex is_reconcile_step ev"
    and "\<forall>resp. fst out = Inr resp \<longrightarrow>
           (\<exists>bv. fst (verifyAndSyncBalance E uid sa) = Inr bv \<and>
                 b_balance resp = calculatedBalance bv)"
    by (simp_all add: v)
qed

lemma profile_rejected:
  assumes "\<not> (truthy uid \<and> throws E Cache_getClient = None)"
  shows "isl (fst (getUserProfileBalance E uid s))"
    and "ledger (snd (getUserProfileBalance E uid s)) = ledger s"
    and "\<not> list_ex is_reconcile_step (new_events s (snd (getUserProfileBalance E uid s)))"
    and "VerifyCalled uid \<notin> set (new_events s (snd (getUserProfileBalance E uid s)))"
  using assms
  by (auto simp add: getUserProfileBalance_def io_defs new_events_def split: option.splits)

text \<open>
  Claim C7, as the code has it. \<open>getUserProfileBalance\<close> obtains the key-value client
  before it calls the reconciliation, so the reconciliation is triggered by a read with
  a valid user id once the client is there, and by every read that returns a balance.
  The reconciliation takes the lock of the user, under the key the balance-changing
  methods use, before its first step; the read of the ledger and the correction of the
  stored balance all lie between the taking of the lock and the entry of its release,
  and no such step comes later. When the lock cannot be taken (it is held, or the lock
  service fails) the read fails, the ledger is as it was and nothing was read or
  corrected. A read that returns a balance leaves the stored balance of the wallet
  equal to the sum of its rows, and returns that balance.
\<close>

theorem balance_read_reconciles_under_lock:
  "(truthy uid \<and> throws E Cache_getClient = None \<and> lock_free E uid s \<longrightarrow>
      (\<exists>mid post.
         new_events s (snd (getUserProfileBalance E uid s)) =
           Logged ''BALANCE_RETRIEVAL_ATTEMPT'' [] # VerifyCalled uid #
           RedisSetNX (''wallet_lock:'' @ js_toString uid) (uuid E) # HistoryRead uid # mid
           @ ReleaseCalled (''wallet_lock:'' @ js_toString uid) (uuid E) # post
       \<and> list_all is_reconcile_step mid \<and> \<not> list_ex is_reconcile_step post))
   \<and> (truthy uid \<and> throws E Cache_getClient = None \<and> \<not> lock_free E uid s \<longrightarrow>
      (\<exists>ev. new_events s (snd (getUserProfileBalance E uid s)) =
              Logged ''BALANCE_RETRIEVAL_ATTEMPT'' [] # VerifyCalled uid # ev
          \<and> \<not> list_ex is_reconcile_step ev))
   \<and> (\<not> lock_free E uid s \<longrightarrow>
         isl (fst (getUserProfileBalance E uid s)) \<and>
         ledger (snd (getUserProfileBalance E uid s)) = ledger s \<and>
         \<not> list_ex is_reconcile_step (new_events s (snd (getUserProfileBalance E uid s))))
   \<and> (\<not> isl (fst (getUserProfileBalance E uid s)) \<longrightarrow>
         truthy uid \<and> throws E Cache_getClient = None \<and> lock_free E uid s)
   \<and> (\<forall>resp. fst (getUserProfileBalance E uid s) = Inr resp \<longrightarrow>
         (\<exists>w. findWallet (ledger (snd (getUserProfileBalance E uid s))) uid = Some w \<and>
              balance w = calculatedFromHistory (ledger (snd (getUserProfileBalance E uid s)))
                            (walletId w) \<and>
              b_balance resp = balance w))
   \<and> (\<forall>l. fst (acquireWalletLock E uid ''deposit_transaction'' s) = Inr l \<longrightarrow>
         lockKey l = ''wallet_lock:'' @ js_toString uid)"
proof -
  let ?out = "getUserProfileBalance E uid s"
  let ?sa = "s\<lparr>trace := trace s @ [Logged ''BALANCE_RETRIEVAL_ATTEMPT'' []]\<rparr>"
  let ?v = "verifyAndSyncBalance E uid ?sa"
  let ?k = "''wallet_lock:'' @ js_toString uid"
  let ?ok = "truthy uid \<and> throws E Cache_getClient = None"
  have free_sa: "lock_free E uid ?sa = lock_free E uid s" by (simp add: lock_free_def)
  have locked: "?ok \<and> lock_free E uid s \<longrightarrow>
      (\<exists>mid post.
         new_events s (snd ?out) =
           Logged ''BALANCE_RETRIEVAL_ATTEMPT'' [] # VerifyCalled uid #
           RedisSetNX ?k (uuid E) # HistoryRead uid # mid @ ReleaseCalled ?k (uuid E) # post
       \<and> list_all is_reconcile_step mid \<and> \<not> list_ex is_reconcile_step post)"
  proof
    assume a: "?ok \<and> lock_free E uid s"
    then have f: "lock_free E uid ?sa" by (simp add: free_sa)
    from verify_locked(1) [OF f] obtain mid post where
      v: "trace (snd ?v) = trace ?sa @ VerifyCalled uid # RedisSetNX ?k (uuid E) #
            HistoryRead uid # mid @ ReleaseCalled ?k (uuid E) # post"
      and mid: "list_all is_reconcile_step mid" and post: "list_all is_release_step post"
      by blast
    have "\<exists>ev. trace (snd ?out) = trace (snd ?v) @ ev \<and> \<not> list_ex is_reconcile_step ev"
      using profile_after_verify(3) [of uid E s] a by simp
    then obtain ev2 where ev2: "trace (snd ?out) = trace (snd ?v) @ ev2"
      "\<not> list_ex is_reconcile_step ev2" by blast
    have "trace (snd ?out) = trace s @ Logged ''BALANCE_RETRIEVAL_ATTEMPT'' [] # VerifyCalled uid #
           RedisSetNX ?k (uuid E) # HistoryRead uid # mid @ ReleaseCalled ?k (uuid E) # (post @ ev2)"
      using v ev2(1) by simp
    then have "new_events s (snd ?out) = Logged ''BALANCE_RETRIEVAL_ATTEMPT'' [] # VerifyCalled uid #
           RedisSetNX ?k (uuid E) # HistoryRead uid # mid @ ReleaseCalled ?k (uuid E) # (post @ ev2)"
      by (rule new_events_append)
    moreover have "\<not> list_ex is_reconcile_step (post @ ev2)"
      using release_steps_no_reconcile_step [OF post] ev2(2) by simp
    ultimately show "\<exists>mid post.
         new_events s (snd ?out) =
           Logged ''BALANCE_RETRIEVAL_ATTEMPT'' [] # VerifyCalled uid #
           RedisSetNX ?k (uuid E) # HistoryRead uid # mid @ ReleaseCalled ?k (uuid E) # post
       \<and> list_all is_reconcile_step mid \<and> \<not> list_ex is_reconcile_step post"
      using mid by blast
  qed
  have unlocked: "?ok \<and> \<not> lock_free E uid s \<longrightarrow>
      (\<exists>ev. new_events s (snd ?out) =
              Logged ''BALANCE_RETRIEVAL_ATTEMPT'' [] # VerifyCalled uid # ev
          \<and> \<not> list_ex is_reconcile_step ev)
      \<and> isl (fst ?out) \<and> ledger (snd ?out) = ledger s"
  proof
    assume a: "?ok \<and> \<not> lock_free E uid s"
    then have nf: "\<not> lock_free E uid ?sa" by (simp add: free_sa)
    from verify_unlocked(3) [OF nf] obtain ev where
      v: "trace (snd ?v) = trace ?sa @ VerifyCalled uid # ev" "\<not> list_ex is_reconcile_step ev"
      by blast
    have "\<exists>ev. trace (snd ?out) = trace (snd ?v) @ ev \<and> \<not> list_ex is_reconcile_step ev"
      using profile_after_verify(3) [of uid E s] a by simp
    then obtain ev2 where ev2: "trace (snd ?out) = trace (snd ?v) @ ev2"
      "\<not> list_ex is_reconcile_step ev2" by blast
    have "trace (snd ?out) = trace s @ Logged ''BALANCE_RETRIEVAL_ATTEMPT'' [] # VerifyCalled uid #
            (ev @ ev2)"
      using v(1) ev2(1) by simp
    then have "new_events s (snd ?out) =
        Logged ''BALANCE_RETRIEVAL_ATTEMPT'' [] # VerifyCalled uid # (ev @ ev2)"
      by (rule new_events_append)
    moreover have "\<not> list_ex is_reconcile_step (ev @ ev2)" using v(2) ev2(2) by simp
    moreover have "isl (fst ?out) \<and> ledger (snd ?out) = ledger s"
      using a verify_unlocked(1,2) [OF nf] profile_after_verify(1,2) [of uid E s] by simp
    ultimately show "(\<exists>ev. new_events s (snd ?out) =
              Logged ''BALANCE_RETRIEVAL_ATTEMPT'' [] # VerifyCalled uid # ev
          \<and> \<not> list_ex is_reconcile_step ev)
      \<and> isl (fst ?out) \<and> ledger (snd ?out) = ledger s"
      by blast
  qed
  have nolock: "\<not> lock_free E uid s \<longrightarrow>
         isl (fst ?out) \<and> ledger (snd ?out) = ledger s \<and>
         \<not> list_ex is_reconcile_step (new_events s (snd ?out))"
  proof (cases ?ok)
    case False
    then show ?thesis using profile_rejected(1,2,3) [of uid E s] by simp
  next
    case True
    show ?thesis
    proof
      assume nf: "\<not> lock_free E uid s"
      with True unlocked obtain ev where
        "new_events s (snd ?out) = Logged ''BALANCE_RETRIEVAL_ATTEMPT'' [] # VerifyCalled uid # ev"
        "\<not> list_ex is_reconcile_step ev" "isl (fst ?out)" "ledger (snd ?out) = ledger s"
        by blast
      then show "isl (fst ?out) \<and> ledger (snd ?out) = ledger s \<and>
         \<not> list_ex is_reconcile_step (new_events s (snd ?out))"
        by simp
    qed
  qed
  have succ: "\<not> isl (fst ?out) \<longrightarrow> ?ok \<and> lock_free E uid s"
    using profile_rejected(1) [of uid E s] nolock by blast
  have corrected: "\<forall>resp. fst ?out = Inr resp \<longrightarrow>
         (\<exists>w. findWallet (ledger (snd ?out)) uid = Some w \<and>
              balance w = calculatedFromHistory (ledger (snd ?out)) (walletId w) \<and>
              b_balance resp = balance w)"
  proof (intro allI impI)
    fix resp assume r: "fst ?out = Inr resp"
    then have "\<not> isl (fst ?out)" by simp
    with succ have ok: ?ok and free: "lock_free E uid s" by blast+
    then have f: "lock_free E uid ?sa" by (simp add: free_sa)
    from profile_after_verify(4) [of uid E s] ok r obtain bv where
      bv: "fst ?v = Inr bv" "b_balance resp = calculatedBalance bv" by auto
    from verify_locked(2) [OF f] bv(1) obtain w where
      "findWallet (ledger (snd ?v)) uid = Some w"
      "balance w = calculatedFromHistory (ledger (snd ?v)) (walletId w)"
      "calculatedBalance bv = balance w" by blast
    moreover have "ledger (snd ?out) = ledger (snd ?v)"
      using profile_after_verify(2) [of uid E s] ok by simp
    ultimately show "\<exists>w. findWallet (ledger (snd ?out)) uid = Some w \<and>
              balance w = calculatedFromHistory (ledger (snd ?out)) (walletId w) \<and>
              b_balance resp = balance w"
      using bv(2) by simp
  qed
  have key: "\<forall>l. fst (acquireWalletLock E uid ''deposit_transaction'' s) = Inr l \<longrightarrow>
         lockKey l = ''wallet_lock:'' @ js_toString uid"
    by (auto simp add: acquire_result Let_def split: option.splits)
  show ?thesis using locked unlocked nolock succ corrected key by blast
qed

text \<open>
  On a wallet whose stored balance, 50, has drifted from its history, the read takes the
  lock, reads, corrects the balance to 0 and releases; with the lock of \<open>u1\<close> held by A
  the read fails with the contention error and leaves the ledger alone.
\<close>

theorem balance_read_reconciles_under_lock_witness:
  "new_events drifted (snd (getUserProfileBalance E0 (JStr ''u1'') drifted))
     = [Logged ''BALANCE_RETRIEVAL_ATTEMPT'' [], VerifyCalled (JStr ''u1''),
        RedisSetNX ''wallet_lock:u1'' ''token-B'', HistoryRead (JStr ''u1''),
        BalanceCorrected ''w-1'' 0, ReleaseCalled ''wallet_lock:u1'' ''token-B'',
        RedisEval ''wallet_lock:u1'' ''token-B'', Logged ''WALLET_LOCK_RELEASED'' [],
        Logged ''BALANCE_VERIFICATION_RESULT'' [], CacheSet ''wallet_balance:u1'' 0,
        Logged ''BALANCE_RETRIEVAL_SUCCESS'' []]
   \<and> map balance (wallets (ledger drifted)) = [50]
   \<and> map balance (wallets (ledger (snd (getUserProfileBalance E0 (JStr ''u1'') drifted)))) = [0]
   \<and> fst (getUserProfileBalance E0 (JStr ''u1'') held_by_A)
       = Inl (Error ''Wallet transaction in progress'')
   \<and> ledger (snd (getUserProfileBalance E0 (JStr ''u1'') held_by_A)) = ledger held_by_A"
proof -
  have ok: "truthy (JStr ''u1'') \<and> throws E0 Cache_getClient = None"
    by code_simp
  have free: "lock_free E0 (JStr ''u1'') drifted"
    by code_simp
  have held: "\<not> lock_free E0 (JStr ''u1'') held_by_A"
    by code_simp
  have t: "new_events drifted (snd (getUserProfileBalance E0 (JStr ''u1'') drifted))
     = [Logged ''BALANCE_RETRIEVAL_ATTEMPT'' [], VerifyCalled (JStr ''u1''),
        RedisSetNX ''wallet_lock:u1'' ''token-B'', HistoryRead (JStr ''u1''),
        BalanceCorrected ''w-1'' 0, ReleaseCalled ''wallet_lock:u1'' ''token-B'',
        RedisEval ''wallet_lock:u1'' ''token-B'', Logged ''WALLET_LOCK_RELEASED'' [],
        Logged ''BALANCE_VERIFICATION_RESULT'' [], CacheSet ''wallet_balance:u1'' 0,
        Logged ''BALANCE_RETRIEVAL_SUCCESS'' []]"
    by code_simp
  have b0: "map balance (wallets (ledger drifted)) = [50]"
    by code_simp
  have b1: "map balance (wallets (ledger (snd (getUserProfileBalance E0 (JStr ''u1'') drifted)))) = [0]"
    by code_simp
  have e: "fst (getUserProfileBalance E0 (JStr ''u1'') held_by_A)
       = Inl (Error ''Wallet transaction in progress'')"
    by code_simp
  have l: "ledger (snd (getUserProfileBalance E0 (JStr ''u1'') held_by_A)) = ledger held_by_A"
    using balance_read_reconciles_under_lock [of "JStr ''u1''" E0 held_by_A] held by blast
  have "\<exists>mid post.
         new_events drifted (snd (getUserProfileBalance E0 (JStr ''u1'') drifted)) =
           Logged ''BALANCE_RETRIEVAL_ATTEMPT'' [] # VerifyCalled (JStr ''u1'') #
           RedisSetNX (''wallet_lock:'' @ js_toString (JStr ''u1'')) (uuid E0) #
           HistoryRead (JStr ''u1'') # mid
           @ ReleaseCalled (''wallet_lock:'' @ js_toString (JStr ''u1'')) (uuid E0) # post
       \<and> list_all is_reconcile_step mid \<and> \<not> list_ex is_reconcile_step post"
    using balance_read_reconciles_under_lock [of "JStr ''u1''" E0 drifted] ok free by blast
  then show ?thesis using t b0 b1 e l by blast
qed

text \<open>
  The claim has every balance read trigger the reconciliation. With a valid user id and
  the key-value client down, the read fails with the error of the client and its only
  step is the failure log: \<open>verifyAndSyncBalance\<close> has not been called.
\<close>

theorem balance_read_without_client_counterexample:
  "truthy (JStr ''u1'')
   \<and> fst (getUserProfileBalance E_client_down (JStr ''u1'') created) = Inl (Error ''redis down'')
   \<and> new_events created (snd (getUserProfileBalance E_client_down (JStr ''u1'') created))
       = [Logged ''User profile balance retrieval failed'' [''redis down'']]"
  by code_simp

end
